theory Spec2Isabelle
  imports Complex_Main "HOL-Library.Product_Lexorder" "HOL-Library.Multiset"
begin

section \<open>Python strings\<close>

text \<open>
  A Python \<open>str\<close> is a sequence of Unicode code points, and \<open>len\<close> counts code points.
  The tables of \<open>phoneme_variants.py\<close> hold U+0259, which does not fit an 8-bit
  \<^typ>\<open>char\<close>, so a string is a list of code points. \<open>str\<close> turns an ASCII literal
  into such a list.
\<close>

type_synonym ustr = "nat list"

definition str :: "string \<Rightarrow> ustr" where
  "str s = map of_char s"

text \<open>
  \<open>str.isspace\<close>: the code points that \<open>split()\<close>, \<open>strip()\<close> and the regular
  expression class \<open>\s\<close> treat as whitespace.
\<close>

definition py_isspace :: "nat \<Rightarrow> bool" where
  "py_isspace c = (c \<in> set [9, 10, 11, 12, 13, 28, 29, 30, 31, 32, 133, 160, 5760,
      8192, 8193, 8194, 8195, 8196, 8197, 8198, 8199, 8200, 8201, 8202,
      8232, 8233, 8239, 8287, 12288])"

text \<open>
  \<open>str.lower\<close>, code point by code point. Basic Latin and Latin-1 are covered (the
  letters A-Z, U+00C0-U+00D6 and U+00D8-U+00DE move up by 32); every other code point
  is left as it is. Python's table for the scripts beyond Latin-1 is not part of the
  repository, and none of its phrases or tables holds an upper-case letter from there.
\<close>

definition lower_cp :: "nat \<Rightarrow> nat" where
  "lower_cp c = (if (65 \<le> c \<and> c \<le> 90) \<or> (192 \<le> c \<and> c \<le> 214) \<or> (216 \<le> c \<and> c \<le> 222)
                 then c + 32 else c)"

definition py_lower :: "ustr \<Rightarrow> ustr" where
  "py_lower s = map lower_cp s"

definition py_strip :: "ustr \<Rightarrow> ustr" where
  "py_strip s = rev (dropWhile py_isspace (rev (dropWhile py_isspace s)))"

text \<open>
  \<open>s.split()\<close> with no argument: the maximal runs of non-whitespace, in order. The
  first argument is the token being read.
\<close>

fun split_from :: "ustr \<Rightarrow> ustr \<Rightarrow> ustr list" where
  "split_from w [] = (if w = [] then [] else [w])"
| "split_from w (c # cs) =
     (if py_isspace c then (if w = [] then split_from [] cs else w # split_from [] cs)
      else split_from (w @ [c]) cs)"

definition py_split :: "ustr \<Rightarrow> ustr list" where
  "py_split s = split_from [] s"

text \<open>\<open>sep.join(ws)\<close>.\<close>

fun py_join :: "ustr \<Rightarrow> ustr list \<Rightarrow> ustr" where
  "py_join sep [] = []"
| "py_join sep [w] = w"
| "py_join sep (w # v # ws) = w @ sep @ py_join sep (v # ws)"

fun starts_with :: "ustr \<Rightarrow> ustr \<Rightarrow> bool" where
  "starts_with [] s = True"
| "starts_with (p # ps) [] = False"
| "starts_with (p # ps) (c # cs) = (p = c \<and> starts_with ps cs)"

text \<open>\<open>sub in s\<close> on strings: \<open>sub\<close> occurs in \<open>s\<close> as a contiguous substring.\<close>

fun py_in :: "ustr \<Rightarrow> ustr \<Rightarrow> bool" where
  "py_in sub [] = (sub = [])"
| "py_in sub (c # cs) = (starts_with sub (c # cs) \<or> py_in sub cs)"

text \<open>
  \<open>s.replace(old, new)\<close>: every non-overlapping occurrence of \<open>old\<close>, scanning from the
  left. With an empty \<open>old\<close>, Python puts \<open>new\<close> before every code point and at the end.
\<close>

function replace_ne :: "ustr \<Rightarrow> ustr \<Rightarrow> ustr \<Rightarrow> ustr" where
  "replace_ne old new [] = []"
| "replace_ne old new (c # cs) =
     (if old \<noteq> [] \<and> starts_with old (c # cs)
      then new @ replace_ne old new (drop (length old) (c # cs))
      else c # replace_ne old new cs)"
  by pat_completeness auto
termination
  by (relation "measure (\<lambda>(old, new, s). length s)") auto

definition py_replace :: "ustr \<Rightarrow> ustr \<Rightarrow> ustr \<Rightarrow> ustr" where
  "py_replace s old new =
     (if old = [] then concat (map (\<lambda>c. new @ [c]) s) @ new else replace_ne old new s)"

section \<open>Python floats\<close>

text \<open>
  A Python \<open>float\<close> is an IEEE 754 binary64 number: a finite value is an integer of
  magnitude below \<open>2^53\<close> times a power of two that is at least \<open>2^-1074\<close> (the spacing of the
  subnormal numbers), and magnitudes from \<open>2^1024\<close> on are the two infinities. Every
  arithmetic operation returns the exact result rounded to the nearest such number, a
  tie going to the even integer. The finite values are taken as rationals.

  \<open>binade x\<close> is the exponent of the power of two at or below \<open>|x|\<close>, for \<open>x\<close> other than 0:
  \<open>binade_up\<close> counts the halvings that bring a number from 1 on below 2, and
  \<open>binade_down\<close> the doublings that bring a positive number below 1 up to 1.
\<close>

function binade_up :: "rat \<Rightarrow> nat" where
  "binade_up x = (if x < 2 then 0 else Suc (binade_up (x / 2)))"
  by pat_completeness auto
termination
proof (relation "measure (\<lambda>x. nat \<lfloor>x\<rfloor>)")
  show "wf (measure (\<lambda>x::rat. nat \<lfloor>x\<rfloor>))" by simp
next
  fix x :: rat
  assume "\<not> x < 2"
  then have "\<lfloor>x / 2\<rfloor> < \<lfloor>x\<rfloor>" "0 < \<lfloor>x\<rfloor>" by linarith+
  then show "(x / 2, x) \<in> measure (\<lambda>x. nat \<lfloor>x\<rfloor>)" by simp
qed

function binade_down :: "rat \<Rightarrow> nat" where
  "binade_down x = (if x \<le> 0 \<or> 1 \<le> x then 0 else Suc (binade_down (2 * x)))"
  by pat_completeness auto
termination
proof (relation "measure (\<lambda>x. nat \<lfloor>1 / x\<rfloor>)")
  show "wf (measure (\<lambda>x::rat. nat \<lfloor>1 / x\<rfloor>))" by simp
next
  fix x :: rat
  assume "\<not> (x \<le> 0 \<or> 1 \<le> x)"
  then have x: "0 < x" "x < 1" by auto
  define y where "y = 1 / x"
  from x have y: "1 < y" by (simp add: y_def)
  have h: "1 / (2 * x) = y / 2" by (simp add: y_def)
  from y have p: "0 < \<lfloor>y\<rfloor>" by simp
  have "y / 2 < of_int \<lfloor>y\<rfloor>"
  proof -
    have "y < of_int \<lfloor>y\<rfloor> + 1" by linarith
    moreover have "(1::rat) \<le> of_int \<lfloor>y\<rfloor>" using p by linarith
    ultimately show ?thesis by linarith
  qed
  then have "\<lfloor>y / 2\<rfloor> < \<lfloor>y\<rfloor>" by (simp add: floor_less_iff)
  with p have "\<lfloor>1 / (2 * x)\<rfloor> < \<lfloor>1 / x\<rfloor>" "0 < \<lfloor>1 / x\<rfloor>"
    unfolding h by (simp_all add: y_def)
  then show "(2 * x, x) \<in> measure (\<lambda>x. nat \<lfloor>1 / x\<rfloor>)" by simp
qed

definition binade :: "rat \<Rightarrow> int" where
  "binade x = (if 1 \<le> \<bar>x\<bar> then int (binade_up \<bar>x\<bar>) else - int (binade_down \<bar>x\<bar>))"

text \<open>The nearest integer, a tie going to the even one.\<close>

definition round_half_even :: "rat \<Rightarrow> int" where
  "round_half_even y =
     (let f = \<lfloor>y\<rfloor>; d = y - of_int f
      in if d < 1/2 then f else if 1/2 < d then f + 1 else if even f then f else f + 1)"

text \<open>
  \<open>fl_round x\<close> is \<open>x\<close> rounded to 53 significant bits, on the grid of spacing
  \<open>2^(binade x - 52)\<close> and never finer than \<open>2^-1074\<close>. \<open>to_float\<close> adds the overflow: a
  rounded magnitude of \<open>2^1024\<close> or more is an infinity.
\<close>

definition fl_round :: "rat \<Rightarrow> rat" where
  "fl_round x =
     (if x = 0 then 0
      else let e = max (binade x - 52) (- 1074)
           in of_int (round_half_even (x / 2 powi e)) * 2 powi e)"

datatype pyfloat = Finite rat | PosInf | NegInf | NaN

definition to_float :: "rat \<Rightarrow> pyfloat" where
  "to_float x =
     (let y = fl_round x
      in if 2 ^ 1024 \<le> y then PosInf else if y \<le> - (2 ^ 1024) then NegInf else Finite y)"

text \<open>
  Addition of two floats, division of a float by a positive length, and the comparison
  \<open>x > c\<close> with a finite \<open>c\<close>, which is false for a NaN.
\<close>

fun float_add :: "pyfloat \<Rightarrow> pyfloat \<Rightarrow> pyfloat" where
  "float_add (Finite a) (Finite b) = to_float (a + b)"
| "float_add NaN y = NaN"
| "float_add x NaN = NaN"
| "float_add PosInf NegInf = NaN"
| "float_add NegInf PosInf = NaN"
| "float_add PosInf y = PosInf"
| "float_add x PosInf = PosInf"
| "float_add NegInf y = NegInf"
| "float_add x NegInf = NegInf"

fun float_div :: "pyfloat \<Rightarrow> nat \<Rightarrow> pyfloat" where
  "float_div (Finite a) n = to_float (a / of_nat n)"
| "float_div x n = x"

fun float_gt :: "pyfloat \<Rightarrow> rat \<Rightarrow> bool" where
  "float_gt (Finite a) c = (c < a)"
| "float_gt PosInf c = True"
| "float_gt NegInf c = False"
| "float_gt NaN c = False"

text \<open>
  \<open>sum(xs)\<close> on floats: the entries are added from the left, starting from 0, and every
  partial sum is rounded. (This is the plain loop of the interpreters up to Python 3.11;
  from 3.12 on \<open>sum\<close> carries a compensation term for floats and can differ in the last
  bit.) An entry given as a rational stands for the float nearest to it, as a decimal
  literal does; an int of magnitude below \<open>2^53\<close> is that float exactly, and sums of such
  ints that stay below \<open>2^53\<close> are the same in int and in float arithmetic.
\<close>

definition float_sum :: "rat list \<Rightarrow> pyfloat" where
  "float_sum xs = foldl float_add (Finite 0) (map to_float xs)"

section \<open>PhonemeVariants (src/core/phoneme\_variants.py)\<close>

text \<open>
  The three class tables, in the order of the source. A Python dict iterates in
  insertion order, so each table is an association list. The accented letters are
  written as code points: U+00E9 = 233, U+00E8 = 232, U+0259 = 601, U+00E1 = 225,
  U+00E0 = 224, U+00ED = 237, U+00EC = 236, U+00F3 = 243, U+00F2 = 242, U+00FA = 250,
  U+00F9 = 249, U+00E6 = 230.
\<close>

definition VOWEL_PATTERNS :: "(ustr \<times> ustr list) list" where
  "VOWEL_PATTERNS =
    [(str ''e'', [str ''e'', [233], [232], [601]]),
     (str ''a'', [str ''a'', [225], [224]]),
     (str ''i'', [str ''i'', [237], [236]]),
     (str ''o'', [str ''o'', [243], [242]]),
     (str ''u'', [str ''u'', [250], [249]])]"

definition CONSONANT_PATTERNS :: "(ustr \<times> ustr list) list" where
  "CONSONANT_PATTERNS =
    [(str ''c'', [str ''c'', str ''ch'', str ''k'']),
     (str ''g'', [str ''g'', str ''ng'']),
     (str ''ng'', [str ''ng'', str ''n'']),
     (str ''s'', [str ''s'', str ''sh'', str ''z'']),
     (str ''j'', [str ''j'', str ''dj'']),
     (str ''y'', [str ''y'', str ''i''])]"

definition WORD_SUBSTITUTIONS :: "(ustr \<times> ustr list) list" where
  "WORD_SUBSTITUTIONS =
    [(str ''next'',
       [str ''next'', str ''neks'', str ''nekst'', str ''nex'', str ''nek'', str ''naxs'',
        str ''nek'', str ''necks'', str ''nexx'', str ''nekes'', str ''nexs'',
        str ''translate'', str ''teks'']),
     (str ''slide'',
       [str ''slide'', str ''slaid'', str ''slid'', str ''slyde'', str ''slaid'', str ''lite'',
        str ''slait'', str ''slyd'', str ''sled'', str ''slets'', str ''slet'', str ''slets'']),
     (str ''back'',
       [str ''back'', str ''bak'', str ''bek'', [98, 230, 107], str ''bak'', str ''beck'',
        str ''bakk'', str ''bake'', str ''bax'', str ''bakc'', str ''bag'', str ''beg'']),
     (str ''previous'',
       [str ''previous'', str ''previeus'', str ''privieus'', str ''previous'', str ''reviews'',
        str ''previus'', str ''preveus'', str ''previws'', str ''prevews'', str ''privius'',
        str ''priviws'']),
     (str ''open'',
       [str ''open'', str ''op'' @ [232] @ str ''n'', str ''op'' @ [233] @ str ''n'',
        str ''opin'', str ''open'', str ''opeen'', str ''openn'', str ''opem'', str ''opun'',
        str ''aup'' @ [232] @ str ''n'', str ''aup'' @ [233] @ str ''n'', str ''aupin'',
        str ''aupen'', str ''openn'', str ''opem'', str ''opun'',
        str ''aup'' @ [232] @ str ''n'', str ''aup'' @ [233] @ str ''n'', str ''aupin'',
        str ''aupen'', str ''aupenn'', str ''aupem'', str ''aupun'']),
     (str ''close'',
       [str ''close'', str ''klos'', str ''klous'', str ''kloz'', str ''cloze'', str ''clous'',
        str ''cloz'', str ''kloze'', str ''kloas'', str ''kloes'', str ''kloaz'']),
     (str ''help'',
       [str ''help'', str ''h'' @ [232] @ str ''lp'', str ''h'' @ [233] @ str ''lp'',
        str ''help'', str ''hep'']),
     (str ''stop'',
       [str ''stop'', str ''estop'', str ''istop'', str ''stap'', str ''st'' @ [242] @ str ''p'',
        str ''st'' @ [243] @ str ''p'', str ''stopp'', str ''stope'', str ''stoup'', str ''stob'',
        str ''stob'', str ''stopp'', str ''stope'', str ''stoup'', str ''stob'', str ''stob'',
        str ''stopp'', str ''stope'', str ''stoup'', str ''stob'', str ''stob'', str ''stopp'',
        str ''stope'', str ''stoup'', str ''stob'', str ''stob'', str ''setop'']),
     (str ''show'',
       [str ''show'', str ''sho'', str ''sow'', str ''syow'', str ''shou'', str ''shoo'',
        str ''shouw'', str ''shoa'', str ''shoe'', str ''shouh'', str ''showw'']),
     (str ''menu'',
       [str ''menu'', str ''m'' @ [232] @ str ''nu'', str ''m'' @ [233] @ str ''nu'',
        str ''meenu'', str ''minu'', str ''manu'', str ''minu'', str ''menuu'', str ''menou'',
        str ''menue'', str ''manou'', str ''manue'', str ''minou'', str ''minue'', str ''manou'',
        str ''manue''])]"

text \<open>
  One table of \<open>_generate_word_variants\<close>: for each entry whose key occurs in the word,
  replace all occurrences of the key by each alternative in turn, and append the new
  word unless it is already in the list.
\<close>

fun apply_alternatives :: "ustr \<Rightarrow> ustr \<Rightarrow> ustr list \<Rightarrow> ustr list \<Rightarrow> ustr list" where
  "apply_alternatives word original [] variants = variants"
| "apply_alternatives word original (variant # rest) variants =
     (let new_word = py_replace word original variant
      in apply_alternatives word original rest
           (if new_word \<notin> set variants then variants @ [new_word] else variants))"

fun apply_patterns :: "ustr \<Rightarrow> (ustr \<times> ustr list) list \<Rightarrow> ustr list \<Rightarrow> ustr list" where
  "apply_patterns word [] variants = variants"
| "apply_patterns word ((original, variants_list) # rest) variants =
     apply_patterns word rest
       (if py_in original word then apply_alternatives word original variants_list variants
        else variants)"

text \<open>
  \<open>_generate_word_variants\<close> ends with \<open>list(set(variants))\<close>; the order in which a
  Python set is listed is unspecified, and the model lists each element once, in the
  order of first insertion.
\<close>

definition generate_word_variants :: "ustr \<Rightarrow> ustr list" where
  "generate_word_variants word =
     remdups (apply_patterns word CONSONANT_PATTERNS (apply_patterns word VOWEL_PATTERNS [word]))"

definition word_variants_of :: "ustr \<Rightarrow> ustr list" where
  "word_variants_of word =
     (case map_of WORD_SUBSTITUTIONS word of
        Some alternatives \<Rightarrow> alternatives
      | None \<Rightarrow> generate_word_variants word)"

text \<open>
  \<open>generate_variants\<close>. With no word at all (\<open>word_variants\<close> empty) the source reaches
  the last branch and reads \<open>word_variants[0]\<close>, which raises IndexError; with exactly
  one or two words it combines them; with more it varies the first two words and passes
  the remaining words through.
\<close>

datatype py_error = IndexError | UnboundLocalError

definition generate_variants :: "ustr \<Rightarrow> py_error + ustr list" where
  "generate_variants phrase =
     (let words = py_split (py_lower phrase);
          word_variants = map word_variants_of words
      in case word_variants of
           [] \<Rightarrow> Inl IndexError
         | [vs] \<Rightarrow> Inr (remdups (phrase # vs))
         | [vs1, vs2] \<Rightarrow>
             Inr (remdups (phrase # concat (map (\<lambda>v1. map (\<lambda>v2. v1 @ str '' '' @ v2) vs2) vs1)))
         | vs1 # vs2 # _ \<Rightarrow>
             Inr (remdups (phrase # concat (map (\<lambda>v1. map (\<lambda>v2.
                    v1 @ str '' '' @ v2 @ str '' '' @ py_join (str '' '') (drop 2 words)) vs2) vs1))))"

text \<open>
  \<open>add_regional_variants\<close>. Each region block walks the list as it stands when the
  block starts and extends it afterwards, so the Sundanese block also sees the Javanese
  additions, and the Betawi block sees both. \<open>v[-1] in 'tpskcng'\<close> tests the last code
  point of a non-empty \<open>v\<close>; \<open>v[:-1]\<close> drops it.
\<close>

definition javanese_of :: "ustr \<Rightarrow> ustr list" where
  "javanese_of v =
     (if v \<noteq> [] \<and> py_in [last v] (str ''tpskcng'') then [butlast v] else [])
     @ [py_replace v (str ''ng'') (str ''n'')]"

definition sundanese_of :: "ustr \<Rightarrow> ustr list" where
  "sundanese_of v = [py_replace v (str ''e'') (str ''i''), py_replace v (str ''o'') (str ''u'')]"

definition betawi_of :: "ustr \<Rightarrow> ustr" where
  "betawi_of v = py_join (str '' '') (filter (\<lambda>w. length w > 2) (py_split v))"

definition add_regional_variants :: "ustr \<Rightarrow> ustr \<Rightarrow> py_error + ustr list" where
  "add_regional_variants phrase region =
     (case generate_variants phrase of
        Inl e \<Rightarrow> Inl e
      | Inr variants \<Rightarrow>
          (let v1 = (if region \<in> set [str ''javanese'', str ''mixed'']
                     then variants @ concat (map javanese_of variants) else variants);
               v2 = (if region \<in> set [str ''sundanese'', str ''mixed'']
                     then v1 @ concat (map sundanese_of v1) else v1);
               v3 = (if region \<in> set [str ''betawi'', str ''mixed'']
                     then v2 @ map betawi_of v2 else v2)
           in Inr (remdups v3)))"

section \<open>InputValidator (src/utils/validators.py)\<close>

datatype validation_error =
  InvalidInput | InjectionAttempt | DangerousCharacters | TooShortOrInvalid | TooLong

definition SAFE_COMMANDS :: "ustr list" where
  "SAFE_COMMANDS =
     [str ''next'', str ''previous'', str ''stop'', str ''help'', str ''test'',
      str ''open_slideshow'', str ''close_slideshow'', str ''noise'',
      str ''popup_on'', str ''popup_off'', str ''caption_on'', str ''caption_off'',
      str ''change_language'', str ''show_analytics'', str ''unknown'']"

definition validate_command :: "ustr \<Rightarrow> bool" where
  "validate_command command = (command \<in> set SAFE_COMMANDS)"

definition dangerous_keywords :: "ustr list" where
  "dangerous_keywords =
     [str ''exec'', str ''eval'', str ''system'', str ''import'', str ''subprocess'',
      str ''os.system'', str ''shell'', str ''cmd'', str ''powershell'', str ''bash'']"

definition check_injection_attempt :: "ustr \<Rightarrow> bool" where
  "check_injection_attempt text =
     (let text_lower = (if text \<noteq> [] then py_lower text else [])
      in list_ex (\<lambda>keyword. py_in keyword text_lower) dangerous_keywords)"

text \<open>
  \<open>DANGEROUS_PATTERNS\<close>, searched anywhere in the text: one of the code points
  \<open>; & | ` $ ( ) { }\<close>; two dots followed by a backslash or a slash; \<open><\<close> or \<open>>\<close>;
  two hyphens. The patterns hold no letter, so \<open>re.IGNORECASE\<close> changes nothing.
\<close>

definition is_dangerous :: "ustr \<Rightarrow> bool" where
  "is_dangerous text =
     (text \<noteq> [] \<and>
      (list_ex (\<lambda>c. c \<in> set [59, 38, 124, 96, 36, 40, 41, 123, 125]) text
       \<or> py_in [46, 46, 92] text \<or> py_in [46, 46, 47] text
       \<or> list_ex (\<lambda>c. c = 60 \<or> c = 62) text
       \<or> py_in [45, 45] text))"

text \<open>
  The class \<open>\w\<close> of a Unicode pattern: the underscore and every code point that
  \<open>str.isalnum\<close> accepts. Basic Latin and Latin-1 are listed in full, with U+0259 that
  the vowel table uses; any other code point beyond Latin-1 counts as not matching,
  since Python's table for it is not part of the repository.
\<close>

definition py_word_char :: "nat \<Rightarrow> bool" where
  "py_word_char c =
     ((48 \<le> c \<and> c \<le> 57) \<or> (65 \<le> c \<and> c \<le> 90) \<or> (97 \<le> c \<and> c \<le> 122) \<or> c = 95
      \<or> c \<in> set [170, 178, 179, 181, 185, 186, 188, 189, 190]
      \<or> (192 \<le> c \<and> c \<le> 214) \<or> (216 \<le> c \<and> c \<le> 246) \<or> (248 \<le> c \<and> c \<le> 255)
      \<or> c = 601)"

definition sanitize_voice_input :: "ustr \<Rightarrow> ustr" where
  "sanitize_voice_input text =
     (if text = [] then []
      else let t1 = py_strip (py_lower text);
               t2 = py_join (str '' '') (py_split t1)
           in filter (\<lambda>c. py_word_char c \<or> py_isspace c \<or> c \<in> set [45, 46, 44, 33, 63]) t2)"

definition validate_and_sanitize :: "ustr \<Rightarrow> validation_error + ustr" where
  "validate_and_sanitize text =
     (if text = [] then Inl InvalidInput
      else if check_injection_attempt text then Inl InjectionAttempt
      else if is_dangerous text then Inl DangerousCharacters
      else let sanitized = sanitize_voice_input text
           in if sanitized = [] \<or> length sanitized < 2 then Inl TooShortOrInvalid
              else if length sanitized > 200 then Inl TooLong
              else Inr sanitized)"

section \<open>AdaptiveMatcher (src/utils/matcher.py)\<close>

text \<open>
  Scores, thresholds and clock readings are Python numbers (ints and floats), given
  by their values, which are rationals. The comparisons are exact. The arithmetic of
  \<open>adjust_threshold\<close> and \<open>get_adaptive_threshold\<close> is float arithmetic, rounded as
  the section on floats describes.
\<close>

record pronunciation =
  attempts :: nat
  best_score :: rat
  last_attempt :: rat

record matcher =
  base_threshold :: rat
  current_threshold :: rat
  recent_failures :: "rat list"
  recent_successes :: "rat list"
  command_frequency :: "ustr \<rightharpoonup> nat"
  user_pronunciations :: "ustr \<rightharpoonup> pronunciation"

definition new_matcher :: "rat \<Rightarrow> matcher" where
  "new_matcher base =
     \<lparr>base_threshold = base, current_threshold = base, recent_failures = [],
      recent_successes = [], command_frequency = Map.empty, user_pronunciations = Map.empty\<rparr>"

text \<open>\<open>deque(maxlen=10).append\<close>: when the window is full, the oldest entry leaves.\<close>

definition deque_append :: "rat list \<Rightarrow> rat \<Rightarrow> rat list" where
  "deque_append window x = (if length window \<ge> 10 then tl window @ [x] else window @ [x])"

datatype reason = HighFailureRate | NormalOperation

text \<open>
  \<open>adjust_threshold\<close> writes \<open>current_threshold\<close> and then returns the pair
  \<open>(current_threshold, reason)\<close>. On the branch \<open>failure_rate > 0.5\<close> the variable
  \<open>reason\<close> is assigned only when \<open>base_threshold == 6\<close>; otherwise the \<open>return\<close>
  raises UnboundLocalError, after the write.
\<close>

text \<open>
  \<open>len(self.recent_failures) / 10.0\<close> exceeds 0.5 exactly when the window holds more
  than 5 entries, in floats as in rationals (5 / 10.0 is 0.5 exactly).
\<close>

definition failure_rate :: "matcher \<Rightarrow> rat" where
  "failure_rate m =
     (if recent_failures m \<noteq> [] then of_nat (length (recent_failures m)) / 10 else 0)"

text \<open>\<open>sum(self.recent_successes) / len(self.recent_successes)\<close>, or 10 for an empty window.\<close>

definition recent_avg_score :: "matcher \<Rightarrow> pyfloat" where
  "recent_avg_score m =
     (if recent_successes m \<noteq> []
      then float_div (float_sum (recent_successes m)) (length (recent_successes m))
      else Finite 10)"

text \<open>
  The two adjustments are 0, -0.5, 0.5 or their sum, all exact; \<open>base + adjustment\<close> is
  one float addition.
\<close>

definition adjust_threshold :: "matcher \<Rightarrow> (py_error + rat \<times> reason) \<times> matcher" where
  "adjust_threshold m =
     (let base = base_threshold m;
          adjustment = (if failure_rate m > 1/2 then - (1/2) else 0);
          reason = (if failure_rate m > 1/2
                    then (if base_threshold m = 6 then Some HighFailureRate else None)
                    else Some NormalOperation);
          adjustment = (if float_gt (recent_avg_score m) 12 then adjustment + 1/2 else adjustment);
          m' = m\<lparr>current_threshold := max 3 (min 8 (fl_round (fl_round base + adjustment)))\<rparr>
      in case reason of
           None \<Rightarrow> (Inl UnboundLocalError, m')
         | Some r \<Rightarrow> (Inr (current_threshold m', r), m'))"

definition record_success :: "ustr \<Rightarrow> rat \<Rightarrow> matcher \<Rightarrow> matcher" where
  "record_success command score m =
     m\<lparr>recent_successes := deque_append (recent_successes m) score,
       command_frequency := (command_frequency m)(command \<mapsto>
          (case command_frequency m command of None \<Rightarrow> 0 | Some n \<Rightarrow> n) + 1)\<rparr>"

text \<open>\<open>record_failure\<close>; \<open>now\<close> is the reading of \<open>time.time()\<close> it takes for a new key.\<close>

definition record_failure :: "rat \<Rightarrow> ustr \<Rightarrow> rat \<Rightarrow> matcher \<Rightarrow> matcher" where
  "record_failure now text score m =
     (let key = py_strip (py_lower text);
          entry = (case user_pronunciations m key of
                     None \<Rightarrow> \<lparr>attempts = 0, best_score = score, last_attempt = now\<rparr>
                   | Some e \<Rightarrow> e);
          entry = entry\<lparr>attempts := attempts entry + 1\<rparr>;
          entry = entry\<lparr>best_score := max (best_score entry) score\<rparr>
      in m\<lparr>recent_failures := deque_append (recent_failures m) score,
           user_pronunciations := (user_pronunciations m)(key \<mapsto> entry)\<rparr>)"

text \<open>
  \<open>get_adaptive_threshold\<close>: an exception of \<open>adjust_threshold\<close> propagates. The
  command is optional (\<open>None\<close> by default) and tested for truth, so the empty string
  counts as absent.
\<close>

definition get_adaptive_threshold :: "ustr option \<Rightarrow> matcher \<Rightarrow> (py_error + rat) \<times> matcher" where
  "get_adaptive_threshold command m =
     (case adjust_threshold m of
        (Inl e, m') \<Rightarrow> (Inl e, m')
      | (Inr (threshold, r), m') \<Rightarrow>
          (case command of
             None \<Rightarrow> (Inr threshold, m')
           | Some c \<Rightarrow>
               (if c \<noteq> [] \<and> command_frequency m' c \<noteq> None
                then (case command_frequency m' c of
                        Some freq \<Rightarrow>
                          (if freq > 10 then (Inr (max 3 (fl_round (threshold - 1/2))), m')
                           else (Inr threshold, m'))
                      | None \<Rightarrow> (Inr threshold, m'))
                else (Inr threshold, m'))))"

definition should_ask_confirmation :: "rat \<Rightarrow> bool" where
  "should_ask_confirmation score = (8 \<le> score \<and> score < 12)"

section \<open>SmartVoiceDetector (src/core/voice\_detector.py)\<close>

record command_data =
  phrases :: "ustr list"
  weight :: int
  description :: ustr

record candidate =
  command :: ustr
  phrase :: ustr
  score :: rat
  max_score :: int
  cand_description :: ustr

text \<open>
  One call of \<open>_save_unrecognized_command\<close>, by its arguments. The file it appends to
  belongs to the sink; an error while writing is caught inside the method.
\<close>

record saved_call =
  user_input :: ustr
  closest_match :: "ustr option"
  confidence :: rat
  suggestion :: "ustr option"

record detector =
  fuzzy_available :: bool
  wake_words :: "(ustr \<times> command_data) list"
  adaptive_matcher :: matcher
  last_execution_time :: rat
  cooldown_seconds :: rat
  unrecognized :: "saved_call list"

text \<open>
  \<open>detect\<close> returns \<open>None\<close> at four places, each after printing its own message; the
  result records which one was taken. The other results are the dictionaries the
  method returns: the best candidate, or one of the two \<open>"command": "unknown"\<close> forms.
\<close>

datatype none_reason =
  ValidationRejected validation_error | CooldownActive | TooShort | CommandNotSafe

datatype detect_result =
  ReturnNone none_reason
| Matched candidate
| UnknownNoMatch ustr
| UnknownLowConfidence rat ustr ustr

text \<open>
  \<open>_expand_with_variants\<close>. The set \<open>expanded\<close> is listed once per element, in the order
  of first insertion (Python leaves the order of \<open>list(expanded)\<close> unspecified). An
  exception of the generator propagates.
\<close>

definition expand_phrase :: "ustr \<Rightarrow> py_error + ustr list" where
  "expand_phrase p =
     (case generate_variants p of
        Inl e \<Rightarrow> Inl e
      | Inr variants \<Rightarrow>
          (case add_regional_variants p (str ''mixed'') of
             Inl e \<Rightarrow> Inl e
           | Inr regional \<Rightarrow>
               Inr (p # filter (\<lambda>variant. length variant \<ge> 2) variants
                      @ filter (\<lambda>variant. length variant \<ge> 2) regional)))"

fun expand_loop :: "ustr list \<Rightarrow> ustr list \<Rightarrow> py_error + ustr list" where
  "expand_loop [] expanded = Inr expanded"
| "expand_loop (p # rest) expanded =
     (case expand_phrase p of
        Inl e \<Rightarrow> Inl e
      | Inr new \<Rightarrow> expand_loop rest (expanded @ new))"

definition expand_with_variants :: "ustr list \<Rightarrow> py_error + ustr list" where
  "expand_with_variants ps =
     (case expand_loop ps [] of Inl e \<Rightarrow> Inl e | Inr expanded \<Rightarrow> Inr (remdups expanded))"

text \<open>
  The fuzzy step calls \<open>fuzz.ratio\<close> of the fuzzywuzzy package, which is not part of
  the repository: it is the parameter \<open>fuzz\<close>, with \<open>None\<close> when the call raises (the
  source catches every exception there and goes on). The fuzzy score
  \<open>weight + (similarity / 20)\<close> is a float: the quotient of the two ints is rounded, the
  weight is converted, and the sum is rounded. The other scores are ints.
\<close>

type_synonym fuzz_ratio = "ustr \<Rightarrow> ustr \<Rightarrow> int option"

definition score_phrase :: "bool \<Rightarrow> fuzz_ratio \<Rightarrow> ustr \<Rightarrow> int \<Rightarrow> ustr \<Rightarrow> rat" where
  "score_phrase fuzzy fuzz text_lower w p =
     (let s = (if p = text_lower then of_int w + 20
               else if py_in p text_lower then of_int w + 10
               else (let phrase_words = py_split p;
                         text_words = py_split text_lower;
                         matching_words = filter (\<lambda>x. x \<in> set text_words) phrase_words
                     in if length matching_words \<ge> 2
                        then of_int w + of_nat (length matching_words * 3)
                        else if length matching_words = 1 \<and> length phrase_words \<le> 2
                        then of_int w + 1
                        else 0))
      in if s = 0 \<and> fuzzy
         then (case fuzz text_lower p of
                 Some similarity \<Rightarrow>
                   (if similarity \<ge> 85
                    then fl_round (fl_round (of_int w) + fl_round (of_int similarity / 20))
                    else s)
               | None \<Rightarrow> s)
         else s)"

definition scan_command :: "bool \<Rightarrow> fuzz_ratio \<Rightarrow> ustr \<Rightarrow> ustr \<times> command_data \<Rightarrow> candidate list" where
  "scan_command fuzzy fuzz text_lower entry =
     (case entry of (cmd, data) \<Rightarrow>
        concat (map (\<lambda>p.
          (let s = score_phrase fuzzy fuzz text_lower (weight data) p
           in if s > 0
              then [\<lparr>command = cmd, phrase = p, score = s,
                     max_score = weight data + 20, cand_description = description data\<rparr>]
              else [])) (phrases data)))"

definition scan_catalog :: "bool \<Rightarrow> fuzz_ratio \<Rightarrow> ustr \<Rightarrow> (ustr \<times> command_data) list \<Rightarrow> candidate list" where
  "scan_catalog fuzzy fuzz text_lower ww = concat (map (scan_command fuzzy fuzz text_lower) ww)"

text \<open>
  The sort key of a result. \<open>phrase_length\<close> counts the words of the phrase;
  \<open>phrase_match_quality\<close> is taken on sets of words. The quotient is a float in the
  source and the exact ratio here: two different ratios of word counts are more than
  \<open>2^-52\<close> apart, and so round to different floats in the same order, unless a phrase
  has more than \<open>2^26\<close> distinct words.
\<close>

definition phrase_length :: "candidate \<Rightarrow> nat" where
  "phrase_length r = length (py_split (phrase r))"

definition phrase_match_quality :: "ustr \<Rightarrow> candidate \<Rightarrow> rat" where
  "phrase_match_quality text_lower r =
     (let phrase_words = set (py_split (phrase r));
          text_words = set (py_split text_lower);
          matching_words = card (phrase_words \<inter> text_words)
      in of_nat matching_words / of_nat (max (card phrase_words) 1))"

definition sort_key_of :: "ustr \<Rightarrow> candidate \<Rightarrow> rat \<times> rat \<times> int" where
  "sort_key_of text_lower r =
     (- score r, - phrase_match_quality text_lower r, - int (phrase_length r))"

text \<open>
  \<open>results.sort(key=sort_key)\<close> is a stable sort in ascending order of the key tuples,
  compared lexicographically; \<open>sort_key\<close> of the list library is the stable insertion
  sort, which yields the same list.
\<close>

definition rank :: "ustr \<Rightarrow> candidate list \<Rightarrow> candidate list" where
  "rank text_lower results = sort_key (sort_key_of text_lower) results"

definition min_score_threshold :: rat where
  "min_score_threshold = 8"

text \<open>
  \<open>detect\<close>. \<open>now\<close> is the reading of \<open>time.time()\<close> taken for the cooldown check, and
  \<open>now_rf\<close> the later reading inside \<open>record_failure\<close>.
\<close>

definition detect :: "fuzz_ratio \<Rightarrow> rat \<Rightarrow> rat \<Rightarrow> ustr \<Rightarrow> detector \<Rightarrow> detect_result \<times> detector" where
  "detect fuzz now now_rf text0 st =
     (case validate_and_sanitize text0 of
        Inl err \<Rightarrow> (ReturnNone (ValidationRejected err), st)
      | Inr text \<Rightarrow>
          if now - last_execution_time st < cooldown_seconds st
          then (ReturnNone CooldownActive, st)
          else if text = [] \<or> length (py_strip text) < 2
          then (ReturnNone TooShort, st)
          else
            (let text_lower = py_strip (py_lower text);
                 results = rank text_lower
                             (scan_catalog (fuzzy_available st) fuzz text_lower (wake_words st))
             in case results of
                  [] \<Rightarrow>
                    (UnknownNoMatch text_lower,
                     st\<lparr>unrecognized := unrecognized st @
                          [\<lparr>user_input = text_lower, closest_match = None,
                            confidence = 0, suggestion = None\<rparr>]\<rparr>)
                | best_match # _ \<Rightarrow>
                    if score best_match \<ge> min_score_threshold
                    then (if \<not> validate_command (command best_match)
                          then (ReturnNone CommandNotSafe, st)
                          else (Matched best_match,
                                st\<lparr>last_execution_time := now,
                                   adaptive_matcher :=
                                     record_success (command best_match) (score best_match)
                                       (adaptive_matcher st)\<rparr>))
                    else (UnknownLowConfidence (score best_match)
                            (cand_description best_match) text_lower,
                          st\<lparr>unrecognized := unrecognized st @
                               [\<lparr>user_input = text_lower,
                                 closest_match = Some (command best_match),
                                 confidence = score best_match,
                                 suggestion = Some (cand_description best_match)\<rparr>],
                             adaptive_matcher :=
                               record_failure now_rf text (score best_match)
                                 (adaptive_matcher st)\<rparr>)))"

text \<open>
  The catalog that \<open>__init__\<close> builds: \<open>next\<close> and \<open>previous\<close> pass their phrases
  through \<open>_expand_with_variants\<close>; the other twelve commands list theirs literally.
\<close>

definition next_seeds :: "ustr list" where
  "next_seeds =
     [str ''next slide'', str ''slide next'', str ''lanjut slide'', str ''slide lanjut'']"

definition previous_seeds :: "ustr list" where
  "previous_seeds =
     [str ''back slide'', str ''slide back'', str ''mundur slide'',
      str ''slide mundur'', str ''previous slide'', str ''slide previous'']"

definition literal_commands :: "(ustr \<times> command_data) list" where
  "literal_commands =
    [(str ''open_slideshow'',
      \<lparr>phrases =
         [str ''open slide show'', str ''slide show open'', str ''start slide show'',
          str ''slide show start'', str ''mulai slide show'', str ''slide show mulai'',
          str ''buka slide show'', str ''slide show buka'', str ''f5'',
          str ''mulai presentasi'', str ''presentasi mulai'', str ''buka presentasi'',
          str ''presentasi buka'', str ''start presentation'',
          str ''presentation start'', str ''open slide'', str ''open side show'',
          str ''open slideshows''],
       weight = 18,
       description = str ''Buka slideshow (F5)''\<rparr>),
     (str ''close_slideshow'',
      \<lparr>phrases =
         [str ''close slide show'', str ''slide show close'', str ''quit slide show'',
          str ''slide show quit'', str ''keluar slide show'',
          str ''slide show keluar'', str ''tutup slide show'',
          str ''slide show tutup'', str ''stop slide show'', str ''slide show stop'',
          str ''akhiri presentasi'', str ''presentasi akhiri'',
          str ''tutup presentasi'', str ''presentasi tutup'', str ''end presentation'',
          str ''presentation end'', str ''exit slideshow'', str ''slideshow exit'',
          str ''close slide'', str ''close side show'', str ''close slideshows''],
       weight = 18,
       description = str ''Tutup slideshow (ESC)''\<rparr>),
     (str ''help'',
      \<lparr>phrases =
         [str ''help menu'', str ''menu help'', str ''bantuan menu'',
          str ''menu bantuan'', str ''helm menu'', str ''hal menu'', str ''helmmu'',
          str ''menu bantu'', str ''menu bantuanmu'', str ''menu bantuin'',
          str ''held menu'', str ''hell menu'', str ''help me menu''],
       weight = 8,
       description = str ''Tampilkan bantuan''\<rparr>),
     (str ''stop'',
      \<lparr>phrases =
         [str ''stop program'', str ''program stop'', str ''berhenti program'',
          str ''program berhenti'', str ''stop'', str ''berhenti'',
          str ''stok program'', str ''setiap program'', str ''top program'',
          str ''stop programnya'', str ''stop progran''],
       weight = 15,
       description = str ''Stop program''\<rparr>),
     (str ''test'',
      \<lparr>phrases =
         [str ''test mic'', str ''mic test'', str ''test microphone'',
          str ''microphone test'', str ''test audio'', str ''audio test''],
       weight = 8,
       description = str ''Test microphone''\<rparr>),
     (str ''noise'',
      \<lparr>phrases =
         [str ''toggle noise'', str ''noise toggle'', str ''noise reduction'',
          str ''reduction noise'', str ''noise on'', str ''noise off''],
       weight = 8,
       description = str ''Toggle noise reduction''\<rparr>),
     (str ''popup_on'',
      \<lparr>phrases =
         [str ''popup on'', str ''show popup'', str ''popup show'',
          str ''enable popup'', str ''popup enable'', str ''turn on popup'',
          str ''popup turn on''],
       weight = 8,
       description = str ''Tampilkan popup bantu''\<rparr>),
     (str ''popup_off'',
      \<lparr>phrases =
         [str ''popup off'', str ''hide popup'', str ''popup hide'',
          str ''disable popup'', str ''popup disable'', str ''turn off popup'',
          str ''popup turn off''],
       weight = 8,
       description = str ''Sembunyikan popup bantu''\<rparr>),
     (str ''caption_on'',
      \<lparr>phrases =
         [str ''caption on'', str ''start caption'', str ''caption start'',
          str ''enable caption'', str ''caption enable'', str ''turn on caption'',
          str ''caption turn on'', str ''live caption on'', str ''caption live on''],
       weight = 8,
       description = str ''Tampilkan teks caption dan mulai live captioning real-time''\<rparr>),
     (str ''caption_off'',
      \<lparr>phrases =
         [str ''caption off'', str ''stop caption'', str ''caption stop'',
          str ''disable caption'', str ''caption disable'', str ''turn off caption'',
          str ''caption turn off'', str ''live caption off'', str ''caption live off''],
       weight = 12,
       description = str ''Teks caption berhenti dan sembunyikan live captioning real-time''\<rparr>),
     (str ''change_language'',
      \<lparr>phrases =
         [str ''change language'', str ''language change'', str ''switch language'',
          str ''language switch'', str ''ganti bahasa'', str ''bahasa ganti''],
       weight = 7,
       description = str ''Change caption language''\<rparr>),
     (str ''show_analytics'',
      \<lparr>phrases =
         [str ''show analytics'', str ''analytics show'', str ''display analytics'',
          str ''analytics display'', str ''session stats'', str ''stats session''],
       weight = 7,
       description = str ''Show session analytics''\<rparr>)]"

definition init_wake_words :: "py_error + (ustr \<times> command_data) list" where
  "init_wake_words =
     (case expand_with_variants next_seeds of
        Inl e \<Rightarrow> Inl e
      | Inr next_phrases \<Rightarrow>
          (case expand_with_variants previous_seeds of
             Inl e \<Rightarrow> Inl e
           | Inr previous_phrases \<Rightarrow>
               Inr ((str ''next'',
                     \<lparr>phrases = next_phrases, weight = 10,
                      description = str ''Slide maju''\<rparr>)
                  # (str ''previous'',
                     \<lparr>phrases = previous_phrases, weight = 10,
                      description = str ''Slide mundur''\<rparr>)
                  # literal_commands)))"

text \<open>
  \<open>SmartVoiceDetector.__init__\<close>; \<open>fuzzy\<close> tells whether the two fuzzy-matching packages
  could be imported.
\<close>

definition new_detector :: "bool \<Rightarrow> py_error + detector" where
  "new_detector fuzzy =
     (case init_wake_words of
        Inl e \<Rightarrow> Inl e
      | Inr ww \<Rightarrow>
          Inr \<lparr>fuzzy_available = fuzzy, wake_words = ww, adaptive_matcher = new_matcher 6,
               last_execution_time = 0, cooldown_seconds = 2, unrecognized = []\<rparr>)"

section \<open>Sequences of calls\<close>

text \<open>
  The calls a client can make on an \<open>AdaptiveMatcher\<close>, with what each returns. The
  second argument of \<open>get_adaptive_threshold\<close> (\<open>score\<close>) is never read and is left out.
  A call that raises leaves the object as the exception found it, and later calls go on
  from there.
\<close>

datatype matcher_call =
  RecordSuccess ustr rat
| RecordFailure rat ustr rat
| AdjustThreshold
| GetAdaptiveThreshold "ustr option"

datatype call_result = NoValue | Threshold rat | ThresholdReason rat reason | Raised py_error

fun matcher_step :: "matcher_call \<Rightarrow> matcher \<Rightarrow> call_result \<times> matcher" where
  "matcher_step (RecordSuccess cmd s) m = (NoValue, record_success cmd s m)"
| "matcher_step (RecordFailure now text s) m = (NoValue, record_failure now text s m)"
| "matcher_step AdjustThreshold m =
     (case adjust_threshold m of
        (Inl e, m') \<Rightarrow> (Raised e, m')
      | (Inr (t, r), m') \<Rightarrow> (ThresholdReason t r, m'))"
| "matcher_step (GetAdaptiveThreshold cmd) m =
     (case get_adaptive_threshold cmd m of
        (Inl e, m') \<Rightarrow> (Raised e, m')
      | (Inr t, m') \<Rightarrow> (Threshold t, m'))"

fun run_calls :: "matcher_call list \<Rightarrow> matcher \<Rightarrow> call_result list \<times> matcher" where
  "run_calls [] m = ([], m)"
| "run_calls (c # cs) m =
     (case matcher_step c m of
        (r, m') \<Rightarrow> (case run_calls cs m' of (rs, m'') \<Rightarrow> (r # rs, m'')))"



fun threshold_in_range :: "call_result \<Rightarrow> bool" where
  "threshold_in_range (Threshold t) = (3 \<le> t \<and> t \<le> 8)"
| "threshold_in_range (ThresholdReason t r) = (3 \<le> t \<and> t \<le> 8)"
| "threshold_in_range NoValue = True"
| "threshold_in_range (Raised e) = False"

section \<open>Auxiliary definitions for the properties\<close>

text \<open>The key under which \<open>record_failure\<close> files an utterance, and a run of such calls.\<close>

definition failure_key :: "ustr \<Rightarrow> ustr" where
  "failure_key text = py_strip (py_lower text)"

fun record_failures :: "(rat \<times> ustr \<times> rat) list \<Rightarrow> matcher \<Rightarrow> matcher" where
  "record_failures [] m = m"
| "record_failures ((now, text, s) # rest) m = record_failures rest (record_failure now text s m)"

definition scores_for :: "ustr \<Rightarrow> (rat \<times> ustr \<times> rat) list \<Rightarrow> rat list" where
  "scores_for k calls = map (\<lambda>(now, text, s). s) (filter (\<lambda>(now, text, s). failure_key text = k) calls)"

definition attempts_of :: "matcher \<Rightarrow> ustr \<Rightarrow> nat" where
  "attempts_of m k = (case user_pronunciations m k of None \<Rightarrow> 0 | Some e \<Rightarrow> attempts e)"




definition matcher_inv :: "matcher \<Rightarrow> bool" where
  "matcher_inv m = (base_threshold m = 6 \<and> 3 \<le> current_threshold m \<and> current_threshold m \<le> 8)"

text \<open>
  A detector for concrete runs: no fuzzy package, and the catalog of the specification's
  Scenario A (the command \<open>next\<close> of weight 10 with the phrase "next slide").
\<close>

definition no_fuzz :: fuzz_ratio where
  "no_fuzz a b = None"

definition scenario_A_detector :: detector where
  "scenario_A_detector =
     \<lparr>fuzzy_available = False,
      wake_words = [(str ''next'',
                     \<lparr>phrases = [str ''next slide''], weight = 10,
                      description = str ''Slide maju''\<rparr>)],
      adaptive_matcher = new_matcher 6, last_execution_time = 0, cooldown_seconds = 2,
      unrecognized = []\<rparr>"

definition c7_calls :: "matcher_call list" where
  "c7_calls = [RecordSuccess (str ''next'') 30, AdjustThreshold,
               GetAdaptiveThreshold (Some (str ''next''))]"

text \<open>The ranked candidates of one \<open>detect\<close> call, for the lower-cased, trimmed text.\<close>

definition results_of :: "fuzz_ratio \<Rightarrow> ustr \<Rightarrow> detector \<Rightarrow> candidate list" where
  "results_of fuzz text_lower st =
     rank text_lower (scan_catalog (fuzzy_available st) fuzz text_lower (wake_words st))"

text \<open>
  Detectors for concrete runs, each with a small catalog and a fresh matcher:
  Scenario A with the weight lowered to 5; a command of weight 7 whose phrase contains a
  phrase of a command of weight 18; the command \<open>stop\<close> after accent training appended a
  transcript as the recognizer delivered it; and a command outside the safe list.
\<close>

definition low_weight_detector :: detector where
  "low_weight_detector =
     scenario_A_detector\<lparr>wake_words :=
       [(str ''next'',
         \<lparr>phrases = [str ''next slide''], weight = 5,
          description = str ''Slide maju''\<rparr>)]\<rparr>"

definition outranked_detector :: detector where
  "outranked_detector =
     scenario_A_detector\<lparr>wake_words :=
       [(str ''show_analytics'',
         \<lparr>phrases = [str ''slide show stats''], weight = 7,
          description = str ''Show session analytics''\<rparr>),
        (str ''open_slideshow'',
         \<lparr>phrases = [str ''slide show''], weight = 18,
          description = str ''Buka slideshow (F5)''\<rparr>)]\<rparr>"

definition trained_detector :: detector where
  "trained_detector =
     scenario_A_detector\<lparr>wake_words :=
       [(str ''stop'',
         \<lparr>phrases = [str ''stop program'', str ''Stop Program Now''], weight = 15,
          description = str ''Stop program''\<rparr>)]\<rparr>"

definition unsafe_detector :: detector where
  "unsafe_detector =
     scenario_A_detector\<lparr>wake_words :=
       [(str ''pause'',
         \<lparr>phrases = [str ''pause slide''], weight = 8,
          description = str ''Pause''\<rparr>)]\<rparr>"

text \<open>
  A catalog with three phrases that tie on the score 28 for the utterance
  "open slide show": one with three of its four words in the utterance (19 + 9), one
  contained in it (18 + 10) and one equal to it (8 + 20), scanned in this order.
\<close>

definition tie_catalog :: "(ustr \<times> command_data) list" where
  "tie_catalog =
     [(str ''show_analytics'',
       \<lparr>phrases = [str ''open slide show now''], weight = 19,
        description = str ''Show session analytics''\<rparr>),
      (str ''open_slideshow'',
       \<lparr>phrases = [str ''slide show''], weight = 18,
        description = str ''Buka slideshow (F5)''\<rparr>),
      (str ''help'',
       \<lparr>phrases = [str ''open slide show''], weight = 8,
        description = str ''Tampilkan bantuan''\<rparr>)]"

definition tie_detector :: detector where
  "tie_detector = scenario_A_detector\<lparr>wake_words := tie_catalog\<rparr>"

definition tie_partial :: candidate where
  "tie_partial = \<lparr>command = str ''show_analytics'', phrase = str ''open slide show now'',
                  score = 28, max_score = 39,
                  cand_description = str ''Show session analytics''\<rparr>"

definition tie_contained :: candidate where
  "tie_contained = \<lparr>command = str ''open_slideshow'', phrase = str ''slide show'',
                    score = 28, max_score = 38,
                    cand_description = str ''Buka slideshow (F5)''\<rparr>"

definition tie_exact :: candidate where
  "tie_exact = \<lparr>command = str ''help'', phrase = str ''open slide show'',
                score = 28, max_score = 28,
                cand_description = str ''Tampilkan bantuan''\<rparr>"

text \<open>
  The phrase set that the specification gives a command with the seed phrases \<open>seeds\<close>:
  the seeds, united with the generated and the regional (\<open>region = 'mixed'\<close>) variants of
  every seed that have at least 2 code points. A generator call that raises contributes
  no variant.
\<close>

definition generated_variants :: "ustr \<Rightarrow> ustr set" where
  "generated_variants p = (case generate_variants p of Inr vs \<Rightarrow> set vs | Inl e \<Rightarrow> {})"

definition regional_variants :: "ustr \<Rightarrow> ustr set" where
  "regional_variants p =
     (case add_regional_variants p (str ''mixed'') of Inr vs \<Rightarrow> set vs | Inl e \<Rightarrow> {})"

definition spec_phrase_set :: "ustr list \<Rightarrow> ustr set" where
  "spec_phrase_set seeds =
     set seeds \<union>
     {v. 2 \<le> length v \<and> (\<exists>p \<in> set seeds. v \<in> generated_variants p \<union> regional_variants p)}"

text \<open>
  The phrases of a command in a catalog, and the phrases that the source writes down for
  a command of the built-in catalog.
\<close>

definition catalog_phrases :: "(ustr \<times> command_data) list \<Rightarrow> ustr \<Rightarrow> ustr set" where
  "catalog_phrases ww c = (case map_of ww c of Some d \<Rightarrow> set (phrases d) | None \<Rightarrow> {})"

definition seeded_phrases :: "ustr \<Rightarrow> ustr list" where
  "seeded_phrases c =
     (if c = str ''next'' then next_seeds
      else if c = str ''previous'' then previous_seeds
      else (case map_of literal_commands c of Some d \<Rightarrow> phrases d | None \<Rightarrow> []))"

section \<open>Properties\<close>

subsection \<open>Float rounding\<close>

lemma binade_up_bounds: "1 \<le> x \<Longrightarrow> 2 ^ binade_up x \<le> x \<and> x < 2 ^ Suc (binade_up x)"
proof (induction x rule: binade_up.induct)
  case (1 x)
  show ?case
  proof (cases "x < 2")
    case True
    with "1.prems" show ?thesis by simp
  next
    case False
    then have "1 \<le> x / 2" by simp
    from "1.IH" [OF False this] False show ?thesis
      by (subst (1 2) binade_up.simps) simp
  qed
qed

lemma binade_down_bounds:
  "0 < x \<Longrightarrow> x < 1 \<Longrightarrow> 1 \<le> x * 2 ^ binade_down x \<and> x * 2 ^ binade_down x < 2"
proof (induction x rule: binade_down.induct)
  case (1 x)
  show ?case
  proof (cases "1 \<le> 2 * x")
    case True
    then have "binade_down (2 * x) = 0" by (subst binade_down.simps) simp
    with "1.prems" True show ?thesis by (subst (1 2) binade_down.simps) simp
  next
    case False
    with "1.prems" have c: "\<not> (x \<le> 0 \<or> 1 \<le> x)" and p: "0 < 2 * x" "2 * x < 1" by auto
    from "1.IH" [OF c p] c show ?thesis
      by (subst (1 2) binade_down.simps) (simp add: mult.assoc mult.left_commute)
  qed
qed

lemma binade_bounds:
  assumes "x \<noteq> 0"
  shows "2 powi binade x \<le> \<bar>x\<bar> \<and> \<bar>x\<bar> < 2 powi (binade x + 1)"
proof (cases "1 \<le> \<bar>x\<bar>")
  case True
  have b: "binade x = int (binade_up \<bar>x\<bar>)" using True by (simp add: binade_def)
  have "(2::rat) powi (int (binade_up \<bar>x\<bar>) + 1) = 2 ^ Suc (binade_up \<bar>x\<bar>)"
  proof -
    have "int (binade_up \<bar>x\<bar>) + 1 = int (Suc (binade_up \<bar>x\<bar>))" by simp
    then show ?thesis by (simp only: power_int_of_nat)
  qed
  with binade_up_bounds [OF True] show ?thesis
    unfolding b by (simp only: power_int_of_nat)
next
  case False
  with assms have "0 < \<bar>x\<bar>" "\<bar>x\<bar> < 1" by auto
  from binade_down_bounds [OF this] False
  have a: "1 \<le> \<bar>x\<bar> * 2 ^ binade_down \<bar>x\<bar>" and b: "\<bar>x\<bar> * 2 ^ binade_down \<bar>x\<bar> < 2" by auto
  have p: "(0::rat) < 2 ^ binade_down \<bar>x\<bar>" by simp
  from a p have "1 / 2 ^ binade_down \<bar>x\<bar> \<le> \<bar>x\<bar>" by (simp add: field_simps)
  moreover from b p have "\<bar>x\<bar> < 2 / 2 ^ binade_down \<bar>x\<bar>" by (simp add: field_simps)
  moreover have "(2::rat) powi (- int (binade_down \<bar>x\<bar>)) = 1 / 2 ^ binade_down \<bar>x\<bar>"
    by (simp only: power_int_minus_divide power_int_of_nat)
  moreover have "(2::rat) powi (- int (binade_down \<bar>x\<bar>) + 1) = 2 / 2 ^ binade_down \<bar>x\<bar>"
  proof -
    have "(2::rat) powi (- int (binade_down \<bar>x\<bar>) + 1)
        = 2 powi (- int (binade_down \<bar>x\<bar>)) * 2 powi 1"
      by (rule power_int_add) simp
    also have "\<dots> = 2 / 2 ^ binade_down \<bar>x\<bar>"
      by (simp only: power_int_minus_divide power_int_of_nat power_int_1_right)
    finally show ?thesis .
  qed
  moreover have "binade x = - int (binade_down \<bar>x\<bar>)"
    using False by (simp add: binade_def)
  ultimately show ?thesis by (simp only:)
qed

lemma powi_less_exp:
  assumes "(2::rat) powi a < 2 powi b"
  shows "a < b"
proof (rule ccontr)
  assume "\<not> a < b"
  then have "b \<le> a" by simp
  then have "(2::rat) powi b \<le> 2 powi a" by (rule power_int_increasing) simp
  with assms show False by simp
qed


lemma round_half_even_int: "round_half_even (of_int n) = n"
  by (simp add: round_half_even_def)

lemma fl_round_exact:
  assumes x: "x = of_int k / 2 ^ j" and k: "\<bar>k\<bar> < 2 ^ 53" and j: "j \<le> 1074"
  shows "fl_round x = x"
proof (cases "x = 0")
  case True
  then show ?thesis by (simp add: fl_round_def)
next
  case False
  define e where "e = max (binade x - 52) (- 1074)"
  from binade_bounds [OF False] have b: "2 powi binade x \<le> \<bar>x\<bar>" by simp
  have "\<bar>x\<bar> = of_int \<bar>k\<bar> / 2 ^ j" by (simp add: x)
  also have "\<dots> < 2 ^ 53 / 2 ^ j"
  proof -
    have "(of_int \<bar>k\<bar> :: rat) < of_int (2 ^ 53)" using k by (simp only: of_int_less_iff)
    then show ?thesis by (simp add: divide_strict_right_mono)
  qed
  also have "\<dots> = 2 powi (53 - int j)"
    by (simp add: power_int_diff)
  finally have "(2::rat) powi binade x < 2 powi (53 - int j)" using b by simp
  then have "binade x < 53 - int j" by (rule powi_less_exp)
  with j have e: "e \<le> - int j" by (simp add: e_def)
  define n where "n = nat (- int j - e)"
  have pe: "(2::rat) powi e = 1 / (2 ^ j * 2 ^ n)"
  proof -
    have "e = - int (j + n)" using e by (simp add: n_def)
    then have "(2::rat) powi e = 2 powi (- int (j + n))" by (simp only:)
    also have "\<dots> = 1 / 2 powi int (j + n)" by (rule power_int_minus_divide)
    also have "\<dots> = 1 / 2 ^ (j + n)" by (simp only: power_int_of_nat)
    also have "\<dots> = 1 / (2 ^ j * 2 ^ n)" by (simp only: power_add)
    finally show ?thesis .
  qed
  have q: "x / 2 powi e = of_int (k * 2 ^ n)"
    by (simp add: pe x)
  have "fl_round x = of_int (round_half_even (x / 2 powi e)) * 2 powi e"
    using False by (simp add: fl_round_def e_def Let_def)
  also have "\<dots> = of_int (k * 2 ^ n) * 2 powi e"
    unfolding q round_half_even_int ..
  also have "\<dots> = x" by (simp add: pe x)
  finally show ?thesis .
qed






lemma round_half_even_le:
  assumes "y \<le> of_int N"
  shows "round_half_even y \<le> N"
proof (cases "y = of_int N")
  case True
  then show ?thesis by (simp add: round_half_even_int)
next
  case False
  with assms have "y < of_int N" by simp
  then have "\<lfloor>y\<rfloor> < N" by (simp add: floor_less_iff)
  moreover have "round_half_even y \<le> \<lfloor>y\<rfloor> + 1"
    by (simp add: round_half_even_def Let_def)
  ultimately show ?thesis by simp
qed

lemma fl_round_le_int:
  assumes k: "0 \<le> k" "k < 2 ^ 53" and x: "x \<le> of_int k"
  shows "fl_round x \<le> of_int k"
proof (cases "x = 0")
  case True
  with k show ?thesis by (simp add: fl_round_def)
next
  case False
  define e where "e = max (binade x - 52) (- 1074)"
  have s: "(0::rat) < 2 powi e" by simp
  have fl: "fl_round x = of_int (round_half_even (x / 2 powi e)) * 2 powi e"
    using False by (simp add: fl_round_def e_def Let_def)
  show ?thesis
  proof (cases "x < 0")
    case True
    then have "x / 2 powi e \<le> of_int 0" using s by (simp add: divide_le_0_iff)
    then have "round_half_even (x / 2 powi e) \<le> 0" by (rule round_half_even_le)
    then have "(of_int (round_half_even (x / 2 powi e)) :: rat) \<le> 0" by simp
    then have "fl_round x \<le> 0" unfolding fl using s by (simp add: mult_le_0_iff)
    also have "(0::rat) \<le> of_int k" using k by simp
    finally show ?thesis .
  next
    case pos: False
    with False have p: "0 < x" by simp
    from binade_bounds [OF False] have "2 powi binade x \<le> \<bar>x\<bar>" by simp
    also have "\<bar>x\<bar> \<le> of_int k" using p x by simp
    also have "(of_int k :: rat) < of_int (2 ^ 53)" using k(2) by (simp only: of_int_less_iff)
    also have "(of_int (2 ^ 53) :: rat) = 2 powi 53" by simp
    finally have "binade x < 53" by (rule powi_less_exp)
    then have e: "e \<le> 0" by (simp add: e_def)
    define n where "n = nat (- e)"
    have pe: "(2::rat) powi e = 1 / 2 ^ n"
    proof -
      have "e = - int n" using e by (simp add: n_def)
      then have "(2::rat) powi e = 2 powi (- int n)" by (simp only:)
      also have "\<dots> = 1 / 2 powi int n" by (rule power_int_minus_divide)
      also have "\<dots> = 1 / 2 ^ n" by (simp only: power_int_of_nat)
      finally show ?thesis .
    qed
    have "x / 2 powi e \<le> of_int k / 2 powi e" using x s by (simp add: divide_right_mono)
    also have "\<dots> = of_int (k * 2 ^ n)" by (simp add: pe)
    finally have "round_half_even (x / 2 powi e) \<le> k * 2 ^ n" by (rule round_half_even_le)
    then have "(of_int (round_half_even (x / 2 powi e)) :: rat) \<le> of_int (k * 2 ^ n)"
      by (simp only: of_int_le_iff)
    then have "fl_round x \<le> of_int (k * 2 ^ n) * 2 powi e"
      unfolding fl using s by (simp only: mult_le_cancel_right_pos)
    also have "\<dots> = of_int k" by (simp add: pe)
    finally show ?thesis .
  qed
qed

lemma fl_round_le_8: "x \<le> 8 \<Longrightarrow> fl_round x \<le> 8"
  using fl_round_le_int [of 8 x] by simp

lemma fl_round_numeral:
  "(numeral n :: int) < 2 ^ 53 \<Longrightarrow> fl_round (numeral n) = numeral n"
  using fl_round_exact [of "numeral n" "numeral n" 0] by simp

lemma fl_round_half:
  "(numeral n :: int) < 2 ^ 53 \<Longrightarrow> fl_round (numeral n / 2) = numeral n / 2"
  using fl_round_exact [of "numeral n / 2" "numeral n" 1] by simp

lemma to_float_exact:
  assumes x: "x = of_int k / 2 ^ j" and k: "\<bar>k\<bar> < 2 ^ 53" and j: "j \<le> 1074"
  shows "to_float x = Finite x"
proof -
  have "\<bar>x\<bar> = of_int \<bar>k\<bar> / 2 ^ j" by (simp add: x)
  also have "\<dots> \<le> of_int \<bar>k\<bar> / 1" by (rule divide_left_mono) simp_all
  also have "\<dots> = of_int \<bar>k\<bar>" by simp
  also have "(of_int \<bar>k\<bar> :: rat) < of_int (2 ^ 53)" using k by (simp only: of_int_less_iff)
  also have "(of_int (2 ^ 53) :: rat) < 2 ^ 1024" by simp
  finally have "\<bar>x\<bar> < 2 ^ 1024" .
  then have "\<not> 2 ^ 1024 \<le> x" "\<not> x \<le> - (2 ^ 1024)" by linarith+
  then show ?thesis
    unfolding to_float_def fl_round_exact [OF assms] Let_def by (simp only: if_False)
qed

lemma to_float_numeral:
  "(numeral n :: int) < 2 ^ 53 \<Longrightarrow> to_float (numeral n) = Finite (numeral n)"
  using to_float_exact [of "numeral n" "numeral n" 0] by simp

lemma to_float_zero: "to_float 0 = Finite 0"
  by (simp add: to_float_def fl_round_def)


subsection \<open>The variant generator\<close>

lemma generate_variants_returns:
  "py_split (py_lower p) \<noteq> [] \<Longrightarrow> \<exists>vs. generate_variants p = Inr vs"
  by (auto simp: generate_variants_def Let_def split: list.splits)

lemma generate_variants_raises:
  "py_split (py_lower p) = [] \<Longrightarrow> generate_variants p = Inl IndexError"
  by (simp add: generate_variants_def)

lemma generate_variants_contains:
  "generate_variants p = Inr vs \<Longrightarrow> p \<in> set vs"
  by (auto simp: generate_variants_def Let_def split: list.splits)

lemma add_regional_variants_superset:
  "generate_variants p = Inr vs \<Longrightarrow>
     \<exists>rs. add_regional_variants p region = Inr rs \<and> set vs \<subseteq> set rs"
  by (auto simp: add_regional_variants_def Let_def)

lemma add_regional_variants_raises:
  "generate_variants p = Inl e \<Longrightarrow> add_regional_variants p region = Inl e"
  by (simp add: add_regional_variants_def)

text \<open>
  Claim C9: for every phrase and every region tag, \<open>add_regional_variants(phrase, region)\<close>
  returns a superset of \<open>generate_variants(phrase)\<close>, and \<open>generate_variants(phrase)\<close>
  always contains the phrase. On the empty phrase (and on any phrase without a word) the
  list \<open>word_variants\<close> is empty, the branch commented "More than two words" is taken,
  and \<open>word_variants[0]\<close> raises IndexError: neither function returns a set at all.
\<close>

theorem generate_variants_empty_phrase:
  "generate_variants (str '''') = Inl IndexError
   \<and> add_regional_variants (str '''') (str ''mixed'') = Inl IndexError"
  by (simp add: generate_variants_def add_regional_variants_def str_def py_split_def py_lower_def)

text \<open>
  For a phrase with at least one word both functions return, the generated list holds
  the phrase, and the regional list holds every generated variant, whatever the region.
\<close>

theorem variants_of_worded_phrase:
  assumes "py_split (py_lower p) \<noteq> []"
  shows "\<exists>vs rs. generate_variants p = Inr vs \<and> add_regional_variants p region = Inr rs
           \<and> p \<in> set vs \<and> set vs \<subseteq> set rs"
proof -
  from assms obtain vs where vs: "generate_variants p = Inr vs"
    using generate_variants_returns by blast
  from add_regional_variants_superset [OF vs] obtain rs
    where "add_regional_variants p region = Inr rs" "set vs \<subseteq> set rs" by blast
  with vs generate_variants_contains [OF vs] show ?thesis by blast
qed

lemma split_stop: "py_split (py_lower (str ''stop'')) = [str ''stop'']"
  by (simp add: py_split_def py_lower_def lower_cp_def str_def py_isspace_def)

theorem variants_of_worded_phrase_witness:
  "\<exists>vs rs. generate_variants (str ''stop'') = Inr vs
      \<and> add_regional_variants (str ''stop'') (str ''javanese'') = Inr rs
      \<and> str ''stop'' \<in> set vs \<and> set vs \<subseteq> set rs"
  using variants_of_worded_phrase [of "str ''stop''" "str ''javanese''"]
  by (simp add: split_stop)

subsection \<open>Blank input\<close>

lemma py_lower_space: "\<forall>c\<in>set s. py_isspace c \<Longrightarrow> py_lower s = s"
  by (induction s) (auto simp: py_lower_def lower_cp_def py_isspace_def)

lemma py_in_hd: "py_in (k # ks) s \<Longrightarrow> k \<in> set s"
  by (induction s) auto

lemma py_strip_space:
  assumes "\<forall>c\<in>set s. py_isspace c" shows "py_strip s = []"
proof -
  have "dropWhile py_isspace s = []"
    using assms by (induction s) auto
  then show ?thesis by (simp add: py_strip_def del: dropWhile_eq_Nil_conv)
qed

lemma check_injection_space:
  assumes "\<forall>c\<in>set s. py_isspace c" shows "\<not> check_injection_attempt s"
proof -
  have "\<not> py_in (k # ks) s" if "\<not> py_isspace k" for k ks
    using py_in_hd assms that by blast
  then show ?thesis
    by (simp add: check_injection_attempt_def py_lower_space [OF assms] dangerous_keywords_def
        str_def py_isspace_def)
qed

lemma is_dangerous_space:
  assumes "\<forall>c\<in>set s. py_isspace c" shows "\<not> is_dangerous s"
proof -
  have a: "\<not> py_in (k # ks) s" if "\<not> py_isspace k" for k ks
    using py_in_hd assms that by blast
  have b: "c \<notin> set s" if "\<not> py_isspace c" for c
    using assms that by blast
  have c: "\<forall>c\<in>set s. c \<notin> set [59, 38, 124, 96, 36, 40, 41, 123, 125, 60, 62]"
    using assms by (auto simp: py_isspace_def)
  show ?thesis
    using c by (simp add: is_dangerous_def list_ex_iff a py_isspace_def)
qed

lemma validate_blank:
  assumes "\<forall>c\<in>set text0. py_isspace c"
  shows "validate_and_sanitize text0 = Inl (if text0 = [] then InvalidInput else TooShortOrInvalid)"
  using assms check_injection_space [OF assms] is_dangerous_space [OF assms]
  by (simp add: validate_and_sanitize_def sanitize_voice_input_def py_lower_space
      py_strip_space py_split_def)

text \<open>
  Claim C8: on the empty string and on whitespace-only input, \<open>detect\<close> stops at
  validation. It returns \<open>None\<close> through the validation branch (the validator answers
  "Invalid input" for the empty string and "Input too short or invalid" otherwise), no
  candidate is scored, and the whole detector state (threshold windows, pronunciation
  map, cooldown timestamp, unrecognized-input log) is returned as it was.
\<close>

theorem detect_blank_input:
  assumes "\<forall>c\<in>set text0. py_isspace c"
  shows "detect fuzz now now_rf text0 st =
           (ReturnNone (ValidationRejected (if text0 = [] then InvalidInput else TooShortOrInvalid)), st)"
  by (simp add: detect_def validate_blank [OF assms])

theorem detect_blank_input_witness:
  "detect no_fuzz 100 101 (str ''   '') scenario_A_detector =
     (ReturnNone (ValidationRejected TooShortOrInvalid), scenario_A_detector)"
  using detect_blank_input [of "str ''   ''" no_fuzz 100 101 scenario_A_detector]
  by (simp add: str_def py_isspace_def)

subsection \<open>Pronunciation records\<close>

lemma record_failure_key:
  "user_pronunciations (record_failure now text s m) (failure_key text) =
     Some (case user_pronunciations m (failure_key text) of
             None \<Rightarrow> \<lparr>attempts = 1, best_score = s, last_attempt = now\<rparr>
           | Some e \<Rightarrow> e\<lparr>attempts := attempts e + 1, best_score := max (best_score e) s\<rparr>)"
  by (simp add: record_failure_def failure_key_def Let_def split: option.splits)

lemma record_failure_other:
  "k \<noteq> failure_key text \<Longrightarrow>
     user_pronunciations (record_failure now text s m) k = user_pronunciations m k"
  by (simp add: record_failure_def failure_key_def Let_def)

lemma scores_for_Cons:
  "scores_for k ((now, text, s) # rest) =
     (if failure_key text = k then s # scores_for k rest else scores_for k rest)"
  by (simp add: scores_for_def)

lemma record_failures_entry:
  "user_pronunciations (record_failures calls m) k =
     (case user_pronunciations m k of
        Some e \<Rightarrow>
          Some (e\<lparr>attempts := attempts e + length (scores_for k calls),
                  best_score := fold max (scores_for k calls) (best_score e)\<rparr>)
      | None \<Rightarrow>
          (case filter (\<lambda>(now, text, s). failure_key text = k) calls of
             [] \<Rightarrow> None
           | (now, text, s) # _ \<Rightarrow>
               Some \<lparr>attempts = length (scores_for k calls),
                     best_score = fold max (scores_for k calls) s,
                     last_attempt = now\<rparr>))"
proof (induction calls arbitrary: m)
  case Nil
  show ?case by (simp add: scores_for_def split: option.splits)
next
  case (Cons c calls)
  obtain tm tx s where c: "c = (tm, tx, s)" by (cases c)
  show ?case
  proof (cases "failure_key tx = k")
    case True
    then show ?thesis
      unfolding c using record_failure_key [of tm tx s m]
      by (simp add: Cons.IH scores_for_Cons max.commute split: option.splits)
  next
    case False
    then have sc: "scores_for k (c # calls) = scores_for k calls"
      and fl: "filter (\<lambda>(now, text, s). failure_key text = k) (c # calls) =
               filter (\<lambda>(now, text, s). failure_key text = k) calls"
      and up: "user_pronunciations (record_failure tm tx s m) k = user_pronunciations m k"
      and rf: "record_failures (c # calls) m = record_failures calls (record_failure tm tx s m)"
      by (simp_all add: c scores_for_Cons record_failure_other)
    show ?thesis
      unfolding sc fl rf using Cons.IH [of "record_failure tm tx s m"] unfolding up .
  qed
qed

lemma fold_max_Max:
  "fold max xs (a::rat) = Max (insert a (set xs))"
proof (induction xs arbitrary: a)
  case Nil
  show ?case by simp
next
  case (Cons x xs)
  have "Max (insert (max x a) (set xs)) = Max (insert a (insert x (set xs)))"
    by (cases "set xs = {}") (simp_all add: max.commute max.left_commute max.assoc)
  with Cons show ?case by simp
qed

text \<open>
  Claim C10: across any sequence of \<open>record_failure\<close> calls on a fresh matcher, the
  record stored under an utterance key counts the calls made with that key and holds
  the maximum of their scores (and the clock reading of the first of them); no record
  exists for a key never used. In any state, one call raises the attempt count of its
  key by exactly 1 (from 0 when the key is new) and replaces the best score by the
  maximum of the old one and the new score, so the best score never decreases.
\<close>

theorem record_failure_counts:
  "user_pronunciations (record_failures calls (new_matcher base)) k =
     (case filter (\<lambda>(now, text, s). failure_key text = k) calls of
        [] \<Rightarrow> None
      | (now, text, s) # _ \<Rightarrow>
          Some \<lparr>attempts = length (scores_for k calls),
                best_score = Max (set (scores_for k calls)),
                last_attempt = now\<rparr>)
   \<and> attempts_of (record_failure now' text' s' m) (failure_key text') =
       attempts_of m (failure_key text') + 1
   \<and> (case user_pronunciations m (failure_key text') of
        None \<Rightarrow> True
      | Some e \<Rightarrow>
          (case user_pronunciations (record_failure now' text' s' m) (failure_key text') of
             None \<Rightarrow> False
           | Some e' \<Rightarrow> best_score e' = max (best_score e) s' \<and> best_score e \<le> best_score e'))"
proof -
  have a: "fold max (scores_for k calls) s = Max (set (scores_for k calls))"
    if "filter (\<lambda>(now, text, s). failure_key text = k) calls = (tm, tx, s) # rest"
    for tm tx s rest
  proof -
    have "s \<in> set (scores_for k calls)"
      using that by (force simp: scores_for_def)
    then show ?thesis by (simp add: fold_max_Max insert_absorb)
  qed
  have 1: "user_pronunciations (record_failures calls (new_matcher base)) k =
     (case filter (\<lambda>(now, text, s). failure_key text = k) calls of
        [] \<Rightarrow> None
      | (now, text, s) # _ \<Rightarrow>
          Some \<lparr>attempts = length (scores_for k calls),
                best_score = Max (set (scores_for k calls)),
                last_attempt = now\<rparr>)"
    using a by (auto simp: record_failures_entry new_matcher_def split: list.splits)
  have 2: "attempts_of (record_failure now' text' s' m) (failure_key text') =
       attempts_of m (failure_key text') + 1"
    by (simp add: attempts_of_def record_failure_key split: option.splits)
  have 3: "(case user_pronunciations m (failure_key text') of
        None \<Rightarrow> True
      | Some e \<Rightarrow>
          (case user_pronunciations (record_failure now' text' s' m) (failure_key text') of
             None \<Rightarrow> False
           | Some e' \<Rightarrow> best_score e' = max (best_score e) s' \<and> best_score e \<le> best_score e'))"
    by (simp add: record_failure_key split: option.splits)
  from 1 2 3 show ?thesis by blast
qed

theorem record_failure_counts_witness:
  "user_pronunciations
     (record_failures [(100, str ''Nex'', 3), (101, str '' nex '', 5), (102, str ''nex'', 4)]
        (new_matcher 6)) (str ''nex'')
   = Some \<lparr>attempts = 3, best_score = 5, last_attempt = 100\<rparr>"
proof -
  have k: "failure_key (str ''Nex'') = str ''nex''" "failure_key (str '' nex '') = str ''nex''"
    "failure_key (str ''nex'') = str ''nex''"
    by (simp_all add: failure_key_def py_strip_def py_lower_def lower_cp_def py_isspace_def str_def)
  show ?thesis
    using record_failure_counts
      [of "[(100, str ''Nex'', 3), (101, str '' nex '', 5), (102, str ''nex'', 4)]" 6 "str ''nex''"]
    by (simp add: k scores_for_def)
qed

subsection \<open>The adaptive threshold\<close>

lemma adjust_threshold_state:
  "snd (adjust_threshold m) = m\<lparr>current_threshold :=
      max 3 (min 8 (fl_round (fl_round (base_threshold m)
        + (if failure_rate m > 1/2 then - (1/2) else 0)
        + (if float_gt (recent_avg_score m) 12 then 1/2 else 0))))\<rparr>"
  by (simp add: adjust_threshold_def Let_def split: option.splits)

lemma adjust_threshold_result:
  "fst (adjust_threshold m) =
     (if failure_rate m > 1/2 \<and> base_threshold m \<noteq> 6 then Inl UnboundLocalError
      else Inr (current_threshold (snd (adjust_threshold m)),
                if failure_rate m > 1/2 then HighFailureRate else NormalOperation))"
  by (simp add: adjust_threshold_def Let_def split: option.splits)

lemma record_success_inv: "matcher_inv m \<Longrightarrow> matcher_inv (record_success cmd s m)"
  by (simp add: matcher_inv_def record_success_def)

lemma record_failure_inv: "matcher_inv m \<Longrightarrow> matcher_inv (record_failure now t s m)"
  by (simp add: matcher_inv_def record_failure_def Let_def)

lemma adjust_threshold_inv:
  assumes "matcher_inv m"
  shows "\<exists>t r. adjust_threshold m = (Inr (t, r), m\<lparr>current_threshold := t\<rparr>) \<and> 3 \<le> t \<and> t \<le> 8"
proof -
  have b: "base_threshold m = 6" using assms by (simp add: matcher_inv_def)
  obtain x y where xy: "adjust_threshold m = (x, y)" by (cases "adjust_threshold m")
  have y: "y = snd (adjust_threshold m)" and x: "x = fst (adjust_threshold m)"
    by (simp_all add: xy)
  show ?thesis
    unfolding xy unfolding x y adjust_threshold_result adjust_threshold_state
    by (simp add: b)
qed

lemma matcher_step_inv:
  assumes "matcher_inv m" "matcher_step c m = (r, m')"
  shows "matcher_inv m' \<and> threshold_in_range r"
proof (cases c)
  case (RecordSuccess cmd s)
  with assms show ?thesis by (auto simp: record_success_inv)
next
  case (RecordFailure now t s)
  with assms show ?thesis by (auto simp: record_failure_inv)
next
  case AdjustThreshold
  from adjust_threshold_inv [OF assms(1)] obtain t r0
    where "adjust_threshold m = (Inr (t, r0), m\<lparr>current_threshold := t\<rparr>)" "3 \<le> t" "t \<le> 8"
    by blast
  with assms AdjustThreshold show ?thesis by (auto simp: matcher_inv_def)
next
  case (GetAdaptiveThreshold cmd)
  from adjust_threshold_inv [OF assms(1)] obtain t r0
    where t: "adjust_threshold m = (Inr (t, r0), m\<lparr>current_threshold := t\<rparr>)" "3 \<le> t" "t \<le> 8"
    by blast
  from t(3) have "t - 1/2 \<le> 8" by simp
  then have "fl_round (t - 1/2) \<le> 8" by (rule fl_round_le_8)
  with t assms GetAdaptiveThreshold show ?thesis
    by (auto simp: matcher_inv_def get_adaptive_threshold_def split: option.splits if_splits)
qed

lemma run_calls_inv:
  "matcher_inv m \<Longrightarrow> run_calls calls m = (results, m') \<Longrightarrow>
     matcher_inv m' \<and> (\<forall>r\<in>set results. threshold_in_range r)"
proof (induction calls arbitrary: m results m')
  case Nil
  then show ?case by simp
next
  case (Cons c calls)
  obtain r m1 where s: "matcher_step c m = (r, m1)" by (cases "matcher_step c m")
  obtain rs m2 where t: "run_calls calls m1 = (rs, m2)" by (cases "run_calls calls m1")
  from matcher_step_inv [OF Cons.prems(1) s] have "matcher_inv m1" "threshold_in_range r"
    by simp_all
  with Cons.IH [OF _ t] Cons.prems(2) s t show ?case by auto
qed

text \<open>
  Claim C7: after any finite sequence of \<open>record_success\<close>, \<open>record_failure\<close>,
  \<open>adjust_threshold\<close> and \<open>get_adaptive_threshold\<close> calls on a matcher built with the
  default base threshold 6.0, \<open>current_threshold\<close> lies in [3, 8], and so does every
  threshold a call returned, the one lowered by the frequency leniency included; with
  this base no call raises.
\<close>

theorem threshold_stays_in_range:
  assumes "run_calls calls (new_matcher 6) = (results, m)"
  shows "3 \<le> current_threshold m \<and> current_threshold m \<le> 8
         \<and> (\<forall>r\<in>set results. threshold_in_range r)"
proof -
  have "matcher_inv (new_matcher 6)" by (simp add: matcher_inv_def new_matcher_def)
  from run_calls_inv [OF this assms] show ?thesis by (simp add: matcher_inv_def)
qed

lemma adjust_threshold_normal:
  assumes "failure_rate m \<le> 1/2"
  shows "adjust_threshold m =
     (Inr (max 3 (min 8 (fl_round (fl_round (base_threshold m)
              + (if float_gt (recent_avg_score m) 12 then 1/2 else 0)))),
           NormalOperation),
      m\<lparr>current_threshold :=
          max 3 (min 8 (fl_round (fl_round (base_threshold m)
              + (if float_gt (recent_avg_score m) 12 then 1/2 else 0))))\<rparr>)"
  using assms by (simp add: adjust_threshold_def Let_def)

lemma float_mean_single: "float_div (float_sum [30]) (length [30::rat]) = Finite 30"
  by (simp add: float_sum_def to_float_numeral)

lemma c7_calls_results:
  "fst (run_calls c7_calls (new_matcher 6)) =
     [NoValue, ThresholdReason (13/2) NormalOperation, Threshold (13/2)]"
proof -
  define m1 where "m1 = record_success (str ''next'') 30 (new_matcher 6)"
  define m2 where "m2 = m1\<lparr>current_threshold := 13/2\<rparr>"
  have s: "recent_successes m1 = [30]"
    by (simp add: m1_def record_success_def new_matcher_def deque_append_def)
  have f1: "failure_rate m1 = 0" and b1: "base_threshold m1 = 6"
    and q1: "command_frequency m1 (str ''next'') = Some 1"
    by (simp_all add: m1_def failure_rate_def record_success_def new_matcher_def)
  have a1: "recent_avg_score m1 = Finite 30"
    unfolding recent_avg_score_def s using float_mean_single by simp
  have same: "failure_rate m2 = failure_rate m1" "recent_avg_score m2 = recent_avg_score m1"
    "base_threshold m2 = base_threshold m1" "command_frequency m2 = command_frequency m1"
    by (simp_all add: m2_def failure_rate_def recent_avg_score_def)
  have f2: "failure_rate m2 = 0" and a2: "recent_avg_score m2 = Finite 30"
    and b2: "base_threshold m2 = 6" and q2: "command_frequency m2 (str ''next'') = Some 1"
    by (simp_all only: same f1 a1 b1 q1)
  have idem: "m2\<lparr>current_threshold := 13/2\<rparr> = m2"
    by (simp add: m2_def)
  have r: "fl_round (fl_round 6 + 1/2) = 13/2"
    using fl_round_half [of "num.Bit1 (num.Bit0 (num.Bit1 num.One))"]
    by (simp add: fl_round_numeral)
  have s1: "adjust_threshold m1 = (Inr (13/2, NormalOperation), m2)"
    using adjust_threshold_normal [of m1] by (simp add: f1 a1 b1 m2_def r)
  have s2: "adjust_threshold m2 = (Inr (13/2, NormalOperation), m2)"
    using adjust_threshold_normal [of m2] by (simp add: f2 a2 b2 idem r)
  have ne: "str ''next'' \<noteq> []" by (simp add: str_def)
  have s3: "get_adaptive_threshold (Some (str ''next'')) m2 = (Inr (13/2), m2)"
    by (simp add: get_adaptive_threshold_def s2 q2 ne)
  show ?thesis
    unfolding c7_calls_def by (simp add: m1_def [symmetric] s1 s3)
qed

theorem threshold_stays_in_range_witness:
  "fst (run_calls c7_calls (new_matcher 6)) =
     [NoValue, ThresholdReason (13/2) NormalOperation, Threshold (13/2)]
   \<and> 3 \<le> current_threshold (snd (run_calls c7_calls (new_matcher 6)))
   \<and> current_threshold (snd (run_calls c7_calls (new_matcher 6))) \<le> 8"
proof -
  have h: "run_calls c7_calls (new_matcher 6) =
      (fst (run_calls c7_calls (new_matcher 6)), snd (run_calls c7_calls (new_matcher 6)))"
    by simp
  from threshold_stays_in_range [OF h] show ?thesis
    by (simp add: c7_calls_results)
qed






















subsection \<open>The decision of detect\<close>

lemma detect_scanned:
  assumes "validate_and_sanitize text0 = Inr t"
    and "\<not> now - last_execution_time st < cooldown_seconds st"
    and "2 \<le> length (py_strip t)"
  shows "detect fuzz now now_rf text0 st =
     (case results_of fuzz (py_strip (py_lower t)) st of
        [] \<Rightarrow>
          (UnknownNoMatch (py_strip (py_lower t)),
           st\<lparr>unrecognized := unrecognized st @
                [\<lparr>user_input = py_strip (py_lower t), closest_match = None,
                  confidence = 0, suggestion = None\<rparr>]\<rparr>)
      | best_match # _ \<Rightarrow>
          if score best_match \<ge> min_score_threshold
          then (if \<not> validate_command (command best_match)
                then (ReturnNone CommandNotSafe, st)
                else (Matched best_match,
                      st\<lparr>last_execution_time := now,
                         adaptive_matcher :=
                           record_success (command best_match) (score best_match)
                             (adaptive_matcher st)\<rparr>))
          else (UnknownLowConfidence (score best_match)
                  (cand_description best_match) (py_strip (py_lower t)),
                st\<lparr>unrecognized := unrecognized st @
                     [\<lparr>user_input = py_strip (py_lower t),
                       closest_match = Some (command best_match),
                       confidence = score best_match,
                       suggestion = Some (cand_description best_match)\<rparr>],
                   adaptive_matcher :=
                     record_failure now_rf t (score best_match) (adaptive_matcher st)\<rparr>))"
proof -
  from assms(3) have "t \<noteq> []" by (auto simp: py_strip_def)
  with assms show ?thesis
    by (simp add: detect_def results_of_def Let_def)
qed

lemma detect_matcher_threshold:
  "current_threshold (adaptive_matcher (snd (detect fuzz now now_rf text0 st))) =
     current_threshold (adaptive_matcher st)"
  by (simp add: detect_def Let_def record_success_def record_failure_def
      split: sum.splits list.splits)

lemma detect_ignores_matcher:
  "fst (detect fuzz now now_rf text0 (st\<lparr>adaptive_matcher := m\<rparr>)) =
     fst (detect fuzz now now_rf text0 st)"
  by (simp add: detect_def Let_def split: sum.splits list.splits)

text \<open>
  Claim C1, as amended: when the catalog scan yields at least one candidate, \<open>detect\<close>
  compares the score of the top-ranked candidate with the fixed literal 8.0. It returns
  the candidate when the score is at least 8.0 and its command is in the safe list
  (\<open>None\<close> when the command is not), and otherwise the low-confidence \<open>unknown\<close> result
  with the candidate's description as suggestion. The adaptive matcher is never
  consulted: the result is the same for every matcher state, and \<open>detect\<close> leaves
  \<open>current_threshold\<close> as it was.
\<close>

theorem detect_fixed_threshold:
  assumes "validate_and_sanitize text0 = Inr t"
    and "\<not> now - last_execution_time st < cooldown_seconds st"
    and "2 \<le> length (py_strip t)"
    and "results_of fuzz (py_strip (py_lower t)) st = best # rest"
  shows "fst (detect fuzz now now_rf text0 st) =
           (if score best \<ge> 8
            then (if validate_command (command best) then Matched best
                  else ReturnNone CommandNotSafe)
            else UnknownLowConfidence (score best) (cand_description best)
                   (py_strip (py_lower t)))
         \<and> fst (detect fuzz now now_rf text0 (st\<lparr>adaptive_matcher := m\<rparr>)) =
             fst (detect fuzz now now_rf text0 st)
         \<and> current_threshold (adaptive_matcher (snd (detect fuzz now now_rf text0 st))) =
             current_threshold (adaptive_matcher st)"
  using detect_matcher_threshold [of fuzz now now_rf text0 st]
    detect_ignores_matcher [of fuzz now now_rf text0 m st]
  by (simp add: detect_scanned [OF assms(1-3)] assms(4) min_score_threshold_def)

lemma detect_timestamp:
  "last_execution_time (snd (detect fuzz now now_rf text0 st)) =
     (case fst (detect fuzz now now_rf text0 st) of
        Matched b \<Rightarrow> now
      | ReturnNone r \<Rightarrow> last_execution_time st
      | UnknownNoMatch u \<Rightarrow> last_execution_time st
      | UnknownLowConfidence s d u \<Rightarrow> last_execution_time st)"
  by (simp add: detect_def Let_def split: sum.splits list.splits)

text \<open>
  Claim C3, as amended: a \<open>detect\<close> call made less than \<open>cooldown_seconds\<close> after the
  last accepted detection changes no state and runs no catalog scan; the validator has
  run before the cooldown check, so the call reports the validation error when the
  input is invalid and the cooldown otherwise. For every call, the cooldown timestamp
  becomes the time of the call when the result is a match and is unchanged otherwise.
\<close>

theorem cooldown_gate:
  "(now - last_execution_time st < cooldown_seconds st \<longrightarrow>
      detect fuzz now now_rf text0 st =
        ((case validate_and_sanitize text0 of
            Inl e \<Rightarrow> ReturnNone (ValidationRejected e)
          | Inr t \<Rightarrow> ReturnNone CooldownActive), st))
   \<and> last_execution_time (snd (detect fuzz now now_rf text0 st)) =
       (case fst (detect fuzz now now_rf text0 st) of
          Matched b \<Rightarrow> now
        | ReturnNone r \<Rightarrow> last_execution_time st
        | UnknownNoMatch u \<Rightarrow> last_execution_time st
        | UnknownLowConfidence s d u \<Rightarrow> last_execution_time st)"
  using detect_timestamp [of fuzz now now_rf text0 st]
  by (simp add: detect_def split: sum.splits)

lemma validate_length: "validate_and_sanitize text0 = Inr t \<Longrightarrow> 2 \<le> length t"
  by (auto simp: validate_and_sanitize_def Let_def split: if_splits)

lemma score_phrase_exact: "0 < w \<Longrightarrow> score_phrase fuzzy fuzz p w p = of_int w + 20"
  by (simp add: score_phrase_def)

lemma scan_catalog_member:
  assumes "(c, d) \<in> set ww" "p \<in> set (phrases d)"
    and "0 < score_phrase fuzzy fuzz t (weight d) p"
  shows "\<lparr>command = c, phrase = p, score = score_phrase fuzzy fuzz t (weight d) p,
          max_score = weight d + 20, cand_description = description d\<rparr>
         \<in> set (scan_catalog fuzzy fuzz t ww)"
  using assms by (force simp: scan_catalog_def scan_command_def Let_def)

lemma rank_head_best:
  assumes "rank t rs = best # rest" "r \<in> set rs"
  shows "score r \<le> score best"
proof -
  have "sorted (map (sort_key_of t) (best # rest))"
    using assms(1) by (metis rank_def sorted_sort_key)
  moreover have "r \<in> set (best # rest)"
    using assms by (metis rank_def set_sort)
  ultimately have "sort_key_of t best \<le> sort_key_of t r"
    by auto
  then show ?thesis
    by (auto simp: sort_key_of_def less_eq_prod_def)
qed

text \<open>
  Claim C4, as amended: for a command \<open>c\<close> of positive weight in the safe list and a
  phrase \<open>p\<close> of \<open>c\<close> that is lower-case, trimmed and returned unchanged by validation,
  when the cooldown is inactive, no candidate of the scan scores above
  \<open>weight(c) + 20\<close> and only candidates of \<open>c\<close> reach it, \<open>detect(p)\<close> returns a match
  with command \<open>c\<close> and score \<open>weight(c) + 20\<close>.
\<close>

theorem detect_exact_phrase:
  assumes "(c, d) \<in> set (wake_words st)" and "p \<in> set (phrases d)"
    and "validate_and_sanitize p = Inr p" and "py_lower p = p" and "py_strip p = p"
    and "\<not> now - last_execution_time st < cooldown_seconds st"
    and "validate_command c" and "0 < weight d"
    and "\<forall>r\<in>set (scan_catalog (fuzzy_available st) fuzz p (wake_words st)).
           score r \<le> of_int (weight d) + 20
           \<and> (score r = of_int (weight d) + 20 \<longrightarrow> command r = c)"
  shows "\<exists>best. fst (detect fuzz now now_rf p st) = Matched best
           \<and> command best = c \<and> score best = of_int (weight d) + 20"
proof -
  let ?rs = "scan_catalog (fuzzy_available st) fuzz p (wake_words st)"
  let ?e = "\<lparr>command = c, phrase = p, score = of_int (weight d) + 20,
             max_score = weight d + 20, cand_description = description d\<rparr>"
  have len: "2 \<le> length (py_strip p)"
    using validate_length [OF assms(3)] assms(5) by simp
  have tl: "py_strip (py_lower p) = p"
    using assms(4,5) by simp
  have "?e \<in> set ?rs"
    using scan_catalog_member [OF assms(1,2), of "fuzzy_available st" fuzz p] assms(8)
    by (simp add: score_phrase_exact)
  then have e: "?e \<in> set ?rs" .
  then have "rank p ?rs \<noteq> []"
    by (metis rank_def set_sort empty_iff list.set(1))
  then obtain best rest where br: "rank p ?rs = best # rest"
    by (cases "rank p ?rs") auto
  have "best \<in> set ?rs"
    by (metis br rank_def set_sort list.set_intros(1))
  with assms(9) have up: "score best \<le> of_int (weight d) + 20"
    and eq: "score best = of_int (weight d) + 20 \<Longrightarrow> command best = c"
    by auto
  from rank_head_best [OF br e] have "of_int (weight d) + 20 \<le> score best" by simp
  with up have sc: "score best = of_int (weight d) + 20" by simp
  with eq have cm: "command best = c" by simp
  have ge: "score best \<ge> min_score_threshold"
    using sc assms(8) by (simp add: min_score_threshold_def)
  have "fst (detect fuzz now now_rf p st) = Matched best"
    using detect_scanned [OF assms(3) assms(6) len, of fuzz now_rf] br ge cm assms(7)
    by (simp add: tl results_of_def)
  with sc cm show ?thesis by blast
qed

subsection \<open>Ranking\<close>

lemma rank_sorted: "sorted (map (sort_key_of tw) (rank tw rs))"
  by (simp add: rank_def)

lemma rank_keys_ordered:
  assumes "j < i" "i < length (rank tw rs)"
  shows "sort_key_of tw (rank tw rs ! j) \<le> sort_key_of tw (rank tw rs ! i)"
proof -
  have "map (sort_key_of tw) (rank tw rs) ! j \<le> map (sort_key_of tw) (rank tw rs) ! i"
    using rank_sorted [of tw rs] assms by (simp add: sorted_iff_nth_mono del: nth_map)
  with assms show ?thesis by simp
qed

text \<open>
  Claim C6: the ranked list of one \<open>detect\<close> call holds the candidates of the scan, each
  as often as the scan produced it, and of two of them with equal score the one with the
  higher ratio of shared tokens to phrase tokens stands first; when the ratios are equal
  too, the one whose phrase has more tokens stands first. The tokens are the
  whitespace-separated words; the ratio is the number of distinct words of the phrase
  that occur in the utterance over the number of distinct words of the phrase (over 1
  for a phrase without a word), and the token count is the number of words of the phrase.
\<close>

theorem rank_tie_break:
  assumes "ranked = results_of fuzz tw st"
    and "i < length ranked" "j < length ranked"
    and "score (ranked ! i) = score (ranked ! j)"
  shows "mset ranked = mset (scan_catalog (fuzzy_available st) fuzz tw (wake_words st))
    \<and> ((of_nat (card (set (py_split (phrase (ranked ! j))) \<inter> set (py_split tw))) :: rat)
           / of_nat (max (card (set (py_split (phrase (ranked ! j))))) 1)
         < of_nat (card (set (py_split (phrase (ranked ! i))) \<inter> set (py_split tw)))
           / of_nat (max (card (set (py_split (phrase (ranked ! i))))) 1)
         \<longrightarrow> i < j)
    \<and> ((of_nat (card (set (py_split (phrase (ranked ! j))) \<inter> set (py_split tw))) :: rat)
           / of_nat (max (card (set (py_split (phrase (ranked ! j))))) 1)
         = of_nat (card (set (py_split (phrase (ranked ! i))) \<inter> set (py_split tw)))
           / of_nat (max (card (set (py_split (phrase (ranked ! i))))) 1)
         \<and> length (py_split (phrase (ranked ! j))) < length (py_split (phrase (ranked ! i)))
         \<longrightarrow> i < j)"
proof -
  let ?rs = "scan_catalog (fuzzy_available st) fuzz tw (wake_words st)"
  have r: "ranked = rank tw ?rs" using assms(1) by (simp add: results_of_def)
  have le: "sort_key_of tw (ranked ! j) \<le> sort_key_of tw (ranked ! i)" if "j < i"
    using rank_keys_ordered [OF that, of tw ?rs] assms(2) unfolding r by simp
  have a: "i < j"
    if "(of_nat (card (set (py_split (phrase (ranked ! j))) \<inter> set (py_split tw))) :: rat)
           / of_nat (max (card (set (py_split (phrase (ranked ! j))))) 1)
         < of_nat (card (set (py_split (phrase (ranked ! i))) \<inter> set (py_split tw)))
           / of_nat (max (card (set (py_split (phrase (ranked ! i))))) 1)"
  proof (rule ccontr)
    assume "\<not> i < j"
    with that have "j < i" by (cases "i = j") auto
    from le [OF this] that assms(4) show False
      by (auto simp: sort_key_of_def phrase_match_quality_def Let_def less_eq_prod_def)
  qed
  have b: "i < j"
    if "(of_nat (card (set (py_split (phrase (ranked ! j))) \<inter> set (py_split tw))) :: rat)
           / of_nat (max (card (set (py_split (phrase (ranked ! j))))) 1)
         = of_nat (card (set (py_split (phrase (ranked ! i))) \<inter> set (py_split tw)))
           / of_nat (max (card (set (py_split (phrase (ranked ! i))))) 1)"
      and "length (py_split (phrase (ranked ! j))) < length (py_split (phrase (ranked ! i)))"
  proof (rule ccontr)
    assume "\<not> i < j"
    with that have "j < i" by (cases "i = j") auto
    from le [OF this] that assms(4) show False
      by (auto simp: sort_key_of_def phrase_match_quality_def phrase_length_def Let_def
          less_eq_prod_def)
  qed
  have "mset ranked = mset ?rs" unfolding r by (simp add: rank_def)
  with a b show ?thesis by blast
qed

subsection \<open>Concrete runs\<close>

lemmas validate_eval = str_def py_isspace_def py_lower_def lower_cp_def py_strip_def py_split_def
  py_word_char_def validate_and_sanitize_def sanitize_voice_input_def check_injection_attempt_def
  dangerous_keywords_def is_dangerous_def Let_def

lemmas detect_eval = detect_def scan_catalog_def scan_command_def score_phrase_def rank_def
  min_score_threshold_def validate_command_def SAFE_COMMANDS_def no_fuzz_def
  scenario_A_detector_def new_matcher_def

lemma validate_next_slide: "validate_and_sanitize (str ''next slide'') = Inr (str ''next slide'')"
  by (simp add: validate_eval)

lemma low_weight_run: "fst (detect no_fuzz 100 101 (str ''next page'') low_weight_detector) =
    UnknownLowConfidence 6 (str ''Slide maju'') (str ''next page'')"
  by (simp add: low_weight_detector_def detect_eval validate_eval)

lemma injection_in_cooldown_run: "detect no_fuzz 1 1 (str ''stop system'') scenario_A_detector =
    (ReturnNone (ValidationRejected InjectionAttempt), scenario_A_detector)"
  by (simp add: detect_eval validate_eval)

lemma outranked_run: "fst (detect no_fuzz 100 101 (str ''slide show stats'') outranked_detector) =
    Matched \<lparr>command = str ''open_slideshow'', phrase = str ''slide show'', score = 28,
             max_score = 38, cand_description = str ''Buka slideshow (F5)''\<rparr>"
  by (simp add: outranked_detector_def detect_eval validate_eval sort_key_of_def less_eq_prod_def)

lemma trained_run: "fst (detect no_fuzz 100 101 (str ''Stop Program Now'') trained_detector) =
    Matched \<lparr>command = str ''stop'', phrase = str ''stop program'', score = 25,
             max_score = 35, cand_description = str ''Stop program''\<rparr>"
  by (simp add: trained_detector_def detect_eval validate_eval)

lemma unsafe_run: "fst (detect no_fuzz 100 101 (str ''pause slide'') unsafe_detector) =
    ReturnNone CommandNotSafe"
  by (simp add: unsafe_detector_def detect_eval validate_eval)

lemma adaptive_threshold_fresh:
  "fst (get_adaptive_threshold (Some (str ''next'')) (new_matcher 6)) = Inr 6"
  using fl_round_exact [of 6 6 0]
  by (simp add: get_adaptive_threshold_def adjust_threshold_def failure_rate_def
      recent_avg_score_def new_matcher_def Let_def)

text \<open>
  The claim C1 as stated fails: with the phrase "next slide" at weight 5, the utterance
  "next page" shares one word and scores 6. A fresh matcher answers the threshold 6.0,
  which the score reaches, yet \<open>detect\<close> returns the low-confidence result, since 6 is
  below the literal 8.0.
\<close>

theorem adaptive_threshold_counterexample:
  "fst (detect no_fuzz 100 101 (str ''next page'') low_weight_detector) =
     UnknownLowConfidence 6 (str ''Slide maju'') (str ''next page'')
   \<and> fst (get_adaptive_threshold (Some (str ''next''))
            (adaptive_matcher low_weight_detector)) = Inr 6"
  using low_weight_run adaptive_threshold_fresh
  by (simp add: low_weight_detector_def scenario_A_detector_def)

lemma scenario_A_results:
  "results_of no_fuzz (str ''next slide'') scenario_A_detector =
     [\<lparr>command = str ''next'', phrase = str ''next slide'', score = 30,
       max_score = 30, cand_description = str ''Slide maju''\<rparr>]"
  by (simp add: results_of_def detect_eval)

lemma next_slide_clean:
  "py_lower (str ''next slide'') = str ''next slide''"
  "py_strip (str ''next slide'') = str ''next slide''"
  by (simp_all add: validate_eval)

theorem detect_fixed_threshold_witness:
  "fst (detect no_fuzz 100 101 (str ''next slide'') scenario_A_detector) =
     Matched \<lparr>command = str ''next'', phrase = str ''next slide'', score = 30,
              max_score = 30, cand_description = str ''Slide maju''\<rparr>"
proof -
  have c: "\<not> 100 - last_execution_time scenario_A_detector
             < cooldown_seconds scenario_A_detector"
    by (simp add: scenario_A_detector_def)
  have l: "2 \<le> length (py_strip (str ''next slide''))"
    by (simp add: next_slide_clean) (simp add: str_def)
  have r: "results_of no_fuzz (py_strip (py_lower (str ''next slide''))) scenario_A_detector =
      \<lparr>command = str ''next'', phrase = str ''next slide'', score = 30,
       max_score = 30, cand_description = str ''Slide maju''\<rparr> # []"
    by (simp add: next_slide_clean scenario_A_results)
  from detect_fixed_threshold [OF validate_next_slide c l r, of 101 "new_matcher 6"]
  show ?thesis
    by (simp add: validate_command_def SAFE_COMMANDS_def)
qed

text \<open>
  The claim C3 as stated fails: one second after the last acceptance, with a cooldown
  of two seconds, a call with the utterance "stop system" is answered by the validator
  (injection attempt), which therefore ran before the cooldown check.
\<close>

theorem cooldown_counterexample:
  "1 - last_execution_time scenario_A_detector < cooldown_seconds scenario_A_detector
   \<and> detect no_fuzz 1 1 (str ''stop system'') scenario_A_detector =
       (ReturnNone (ValidationRejected InjectionAttempt), scenario_A_detector)"
  using injection_in_cooldown_run by (simp add: scenario_A_detector_def)

theorem cooldown_gate_witness:
  "detect no_fuzz 1 1 (str ''next slide'') scenario_A_detector =
     (ReturnNone CooldownActive, scenario_A_detector)"
  using cooldown_gate [where now = 1 and st = scenario_A_detector and fuzz = no_fuzz
      and now_rf = 1 and ?text0.0 = "str ''next slide''"]
  by (simp add: validate_next_slide) (simp add: scenario_A_detector_def)

text \<open>
  The claim C4 as stated fails in three ways. The phrase "slide show stats" belongs to
  the command of weight 7 only, but "slide show", a phrase of a command of weight 18,
  occurs in it and scores 28 against 27. The phrase "Stop Program Now" is lower-cased
  by validation and then matches "stop program" as a substring, with score 25 instead
  of 35. A command outside the safe list is never returned.
\<close>

theorem exact_phrase_counterexample:
  "fst (detect no_fuzz 100 101 (str ''slide show stats'') outranked_detector) =
     Matched \<lparr>command = str ''open_slideshow'', phrase = str ''slide show'', score = 28,
              max_score = 38, cand_description = str ''Buka slideshow (F5)''\<rparr>
   \<and> fst (detect no_fuzz 100 101 (str ''Stop Program Now'') trained_detector) =
     Matched \<lparr>command = str ''stop'', phrase = str ''stop program'', score = 25,
              max_score = 35, cand_description = str ''Stop program''\<rparr>
   \<and> fst (detect no_fuzz 100 101 (str ''pause slide'') unsafe_detector) =
     ReturnNone CommandNotSafe"
  using outranked_run trained_run unsafe_run by simp

theorem detect_exact_phrase_witness:
  "\<exists>best. fst (detect no_fuzz 100 101 (str ''next slide'') scenario_A_detector) = Matched best
      \<and> command best = str ''next'' \<and> score best = 30"
proof -
  let ?d = "\<lparr>phrases = [str ''next slide''], weight = 10, description = str ''Slide maju''\<rparr>"
  have m: "(str ''next'', ?d) \<in> set (wake_words scenario_A_detector)"
    and p: "str ''next slide'' \<in> set (phrases ?d)"
    and c: "\<not> 100 - last_execution_time scenario_A_detector
             < cooldown_seconds scenario_A_detector"
    and w: "0 < weight ?d"
    by (simp_all add: scenario_A_detector_def)
  have s: "validate_command (str ''next'')"
    by (simp add: validate_command_def SAFE_COMMANDS_def)
  have sc: "scan_catalog (fuzzy_available scenario_A_detector) no_fuzz (str ''next slide'')
       (wake_words scenario_A_detector) =
      [\<lparr>command = str ''next'', phrase = str ''next slide'', score = 30,
        max_score = 30, cand_description = str ''Slide maju''\<rparr>]"
    by (simp add: detect_eval)
  have b: "\<forall>r\<in>set (scan_catalog (fuzzy_available scenario_A_detector) no_fuzz
        (str ''next slide'') (wake_words scenario_A_detector)).
      score r \<le> of_int (weight ?d) + 20
      \<and> (score r = of_int (weight ?d) + 20 \<longrightarrow> command r = str ''next'')"
    unfolding sc by simp
  from detect_exact_phrase [OF m p validate_next_slide next_slide_clean c s w b, of 101]
  show ?thesis by simp
qed

lemma tie_splits:
  "py_split (str ''open slide show'') = [str ''open'', str ''slide'', str ''show'']"
  "py_split (str ''open slide show now'') =
     [str ''open'', str ''slide'', str ''show'', str ''now'']"
  "py_split (str ''slide show'') = [str ''slide'', str ''show'']"
  by (simp_all add: py_split_def str_def py_isspace_def)

lemma tie_scores:
  "score_phrase False no_fuzz (str ''open slide show'') 19 (str ''open slide show now'') = 28"
  "score_phrase False no_fuzz (str ''open slide show'') 18 (str ''slide show'') = 28"
  "score_phrase False no_fuzz (str ''open slide show'') 8 (str ''open slide show'') = 28"
  unfolding score_phrase_def tie_splits by (simp_all add: str_def)

lemma tie_scan:
  "scan_catalog False no_fuzz (str ''open slide show'') tie_catalog =
     [tie_partial, tie_contained, tie_exact]"
  by (simp add: scan_catalog_def scan_command_def tie_catalog_def tie_scores tie_partial_def
      tie_contained_def tie_exact_def)

lemma tie_words:
  "card (set (py_split (phrase tie_partial)) \<inter> set (py_split (str ''open slide show''))) = 3"
  "card (set (py_split (phrase tie_partial))) = 4"
  "card (set (py_split (phrase tie_contained)) \<inter> set (py_split (str ''open slide show''))) = 2"
  "card (set (py_split (phrase tie_contained))) = 2"
  "card (set (py_split (phrase tie_exact)) \<inter> set (py_split (str ''open slide show''))) = 3"
  "card (set (py_split (phrase tie_exact))) = 3"
  "length (py_split (phrase tie_partial)) = 4"
  "length (py_split (phrase tie_contained)) = 2"
  "length (py_split (phrase tie_exact)) = 3"
  unfolding tie_partial_def tie_contained_def tie_exact_def
  by (simp_all add: tie_splits, simp_all add: str_def)

lemma tie_keys:
  "sort_key_of (str ''open slide show'') tie_partial = (-28, - (3/4), -4)"
  "sort_key_of (str ''open slide show'') tie_contained = (-28, -1, -2)"
  "sort_key_of (str ''open slide show'') tie_exact = (-28, -1, -3)"
  unfolding sort_key_of_def phrase_match_quality_def phrase_length_def Let_def tie_words
  by (simp_all add: tie_partial_def tie_contained_def tie_exact_def)

lemma tie_rank:
  "results_of no_fuzz (str ''open slide show'') tie_detector =
     [tie_exact, tie_contained, tie_partial]"
  by (simp add: results_of_def tie_detector_def scenario_A_detector_def tie_scan rank_def
      tie_keys less_eq_prod_def)

text \<open>
  In the ranked list of the three tied candidates, the phrase equal to the utterance
  (ratio 1, three tokens) stands before the contained phrase (ratio 1, two tokens) by the
  token count, and the contained phrase before the partly matching one (ratio 3/4, four
  tokens) by the ratio, although the scan produced them in the opposite order.
\<close>

theorem rank_tie_break_witness:
  "scan_catalog False no_fuzz (str ''open slide show'') tie_catalog =
     [tie_partial, tie_contained, tie_exact]
   \<and> results_of no_fuzz (str ''open slide show'') tie_detector =
     [tie_exact, tie_contained, tie_partial]
   \<and> mset (results_of no_fuzz (str ''open slide show'') tie_detector) =
     mset (scan_catalog False no_fuzz (str ''open slide show'') tie_catalog)
   \<and> score tie_exact = 28 \<and> score tie_contained = 28 \<and> score tie_partial = 28
   \<and> length (py_split (phrase tie_exact)) = 3
   \<and> length (py_split (phrase tie_contained)) = 2
   \<and> length (py_split (phrase tie_partial)) = 4
   \<and> card (set (py_split (phrase tie_contained)) \<inter> set (py_split (str ''open slide show''))) = 2
   \<and> card (set (py_split (phrase tie_contained))) = 2
   \<and> card (set (py_split (phrase tie_partial)) \<inter> set (py_split (str ''open slide show''))) = 3
   \<and> card (set (py_split (phrase tie_partial))) = 4"
proof -
  have s: "score tie_exact = 28" "score tie_contained = 28" "score tie_partial = 28"
    by (simp_all add: tie_exact_def tie_contained_def tie_partial_def)
  have w: "wake_words tie_detector = tie_catalog" "fuzzy_available tie_detector = False"
    by (simp_all add: tie_detector_def scenario_A_detector_def)
  from rank_tie_break [of "results_of no_fuzz (str ''open slide show'') tie_detector" no_fuzz
      "str ''open slide show''" tie_detector 0 1]
  have 1: "mset (results_of no_fuzz (str ''open slide show'') tie_detector) =
      mset (scan_catalog False no_fuzz (str ''open slide show'') tie_catalog)"
    unfolding w by (simp add: tie_rank s)
  from rank_tie_break [of "results_of no_fuzz (str ''open slide show'') tie_detector" no_fuzz
      "str ''open slide show''" tie_detector 1 2]
  have 2: "mset (results_of no_fuzz (str ''open slide show'') tie_detector) =
      mset (scan_catalog False no_fuzz (str ''open slide show'') tie_catalog)"
    unfolding w by (simp add: tie_rank s)
  from 1 2 tie_scan tie_rank s tie_words show ?thesis by (simp only: simp_thms)
qed

subsection \<open>The catalog\<close>

lemma expand_phrase_set:
  assumes "expand_phrase p = Inr new"
  shows "set new = {p} \<union> {v. 2 \<le> length v \<and> v \<in> generated_variants p \<union> regional_variants p}"
  using assms
  by (auto simp: expand_phrase_def generated_variants_def regional_variants_def
      split: sum.splits)

lemma expand_phrase_returns:
  assumes "py_split (py_lower p) \<noteq> []"
  shows "\<exists>new. expand_phrase p = Inr new"
proof -
  from generate_variants_returns [OF assms] obtain vs where vs: "generate_variants p = Inr vs"
    by blast
  from add_regional_variants_superset [OF vs, of "str ''mixed''"] obtain rs
    where "add_regional_variants p (str ''mixed'') = Inr rs" by blast
  with vs show ?thesis by (simp add: expand_phrase_def)
qed

lemma spec_phrase_set_Cons:
  "spec_phrase_set (p # ps) =
     {p} \<union> {v. 2 \<le> length v \<and> v \<in> generated_variants p \<union> regional_variants p}
     \<union> spec_phrase_set ps"
  by (auto simp: spec_phrase_set_def)

lemma expand_loop_set:
  assumes "\<forall>p\<in>set ps. py_split (py_lower p) \<noteq> []"
  shows "\<exists>ex. expand_loop ps acc = Inr ex \<and> set ex = set acc \<union> spec_phrase_set ps"
  using assms
proof (induction ps arbitrary: acc)
  case Nil
  show ?case by (simp add: spec_phrase_set_def)
next
  case (Cons p ps)
  from Cons.prems have "py_split (py_lower p) \<noteq> []" by simp
  from expand_phrase_returns [OF this] obtain new where new: "expand_phrase p = Inr new"
    by blast
  from Cons.prems have "\<forall>q\<in>set ps. py_split (py_lower q) \<noteq> []" by simp
  from Cons.IH [OF this, of "acc @ new"] obtain ex
    where ex: "expand_loop ps (acc @ new) = Inr ex"
      "set ex = set (acc @ new) \<union> spec_phrase_set ps" by blast
  have "expand_loop (p # ps) acc = Inr ex" by (simp add: new ex(1))
  moreover have "set ex = set acc \<union> spec_phrase_set (p # ps)"
    unfolding ex(2) spec_phrase_set_Cons using expand_phrase_set [OF new] by auto
  ultimately show ?case by blast
qed

lemma expand_with_variants_set:
  assumes "\<forall>p\<in>set ps. py_split (py_lower p) \<noteq> []"
  shows "\<exists>ex. expand_with_variants ps = Inr ex \<and> set ex = spec_phrase_set ps"
proof -
  from expand_loop_set [OF assms, of "[]"] obtain ex
    where "expand_loop ps [] = Inr ex" "set ex = spec_phrase_set ps" by auto
  then show ?thesis by (simp add: expand_with_variants_def)
qed

lemma seeds_have_words:
  "\<forall>p\<in>set next_seeds. py_split (py_lower p) \<noteq> []"
  "\<forall>p\<in>set previous_seeds. py_split (py_lower p) \<noteq> []"
  by (simp_all add: next_seeds_def previous_seeds_def py_split_def py_lower_def lower_cp_def
      str_def py_isspace_def)

lemma init_wake_words_shape:
  "\<exists>np pp.
     init_wake_words =
       Inr ((str ''next'',
             \<lparr>phrases = np, weight = 10, description = str ''Slide maju''\<rparr>)
          # (str ''previous'',
             \<lparr>phrases = pp, weight = 10, description = str ''Slide mundur''\<rparr>)
          # literal_commands)
     \<and> set np = spec_phrase_set next_seeds
     \<and> set pp = spec_phrase_set previous_seeds"
proof -
  from expand_with_variants_set [OF seeds_have_words(1)] obtain np
    where np: "expand_with_variants next_seeds = Inr np" "set np = spec_phrase_set next_seeds"
    by blast
  from expand_with_variants_set [OF seeds_have_words(2)] obtain pp
    where pp: "expand_with_variants previous_seeds = Inr pp"
      "set pp = spec_phrase_set previous_seeds"
    by blast
  have "init_wake_words =
       Inr ((str ''next'',
             \<lparr>phrases = np, weight = 10, description = str ''Slide maju''\<rparr>)
          # (str ''previous'',
             \<lparr>phrases = pp, weight = 10, description = str ''Slide mundur''\<rparr>)
          # literal_commands)"
    by (simp add: init_wake_words_def np(1) pp(1))
  with np(2) pp(2) show ?thesis by blast
qed

lemma next_previous_distinct: "str ''previous'' \<noteq> str ''next''"
  by (simp add: str_def)

lemma generate_variants_two_words:
  assumes "py_split (py_lower p) = [w1, w2]"
    and "v1 \<in> set (word_variants_of w1)" and "v2 \<in> set (word_variants_of w2)"
  shows "v1 @ str '' '' @ v2 \<in> generated_variants p"
  using assms by (auto simp: generated_variants_def generate_variants_def)

lemma split_two:
  "py_split (py_lower (str ''help menu'')) = [str ''help'', str ''menu'']"
  "py_split (py_lower (str ''next slide'')) = [str ''next'', str ''slide'']"
  by (simp_all add: py_split_def py_lower_def lower_cp_def str_def py_isspace_def)

lemma word_variants_examples:
  "str ''hep'' \<in> set (word_variants_of (str ''help''))"
  "str ''menu'' \<in> set (word_variants_of (str ''menu''))"
  "str ''nex'' \<in> set (word_variants_of (str ''next''))"
  "str ''slide'' \<in> set (word_variants_of (str ''slide''))"
  by (simp_all add: word_variants_of_def WORD_SUBSTITUTIONS_def str_def)

lemma hep_menu_generated: "str ''hep menu'' \<in> generated_variants (str ''help menu'')"
  using generate_variants_two_words [OF split_two(1) word_variants_examples(1,2)]
  by (simp add: str_def)

lemma nex_slide_generated: "str ''nex slide'' \<in> generated_variants (str ''next slide'')"
  using generate_variants_two_words [OF split_two(2) word_variants_examples(3,4)]
  by (simp add: str_def)

lemma help_literal:
  "map_of literal_commands (str ''help'') =
     Some \<lparr>phrases =
         [str ''help menu'', str ''menu help'', str ''bantuan menu'',
          str ''menu bantuan'', str ''helm menu'', str ''hal menu'', str ''helmmu'',
          str ''menu bantu'', str ''menu bantuanmu'', str ''menu bantuin'',
          str ''held menu'', str ''hell menu'', str ''help me menu''],
       weight = 8,
       description = str ''Tampilkan bantuan''\<rparr>"
  by (simp add: literal_commands_def str_def)

lemma help_seeded:
  "seeded_phrases (str ''help'') =
         [str ''help menu'', str ''menu help'', str ''bantuan menu'',
          str ''menu bantuan'', str ''helm menu'', str ''hal menu'', str ''helmmu'',
          str ''menu bantu'', str ''menu bantuanmu'', str ''menu bantuin'',
          str ''held menu'', str ''hell menu'', str ''help me menu'']"
  unfolding seeded_phrases_def help_literal by (simp add: str_def)

lemma help_distinct: "str ''help'' \<noteq> str ''next''" "str ''help'' \<noteq> str ''previous''"
  by (simp_all add: str_def)

text \<open>
  Claim C2 says that for every canonical command of the catalog the phrase set scanned by
  \<open>detect\<close> is the seeded phrases united with the generated and regional variants of at
  least 2 characters. The constructor expands only the seeds of \<open>next\<close> and \<open>previous\<close>;
  the other twelve commands are scanned with exactly the phrases written in the source.
  The constructor returns the catalog \<open>ww\<close>, in which the phrase set of \<open>next\<close> and of
  \<open>previous\<close> is the expansion of its seeds, and the phrase set of every other command
  is its literal phrase list.
\<close>

theorem init_wake_words_phrases:
  "\<exists>ww. init_wake_words = Inr ww
     \<and> catalog_phrases ww (str ''next'') = spec_phrase_set next_seeds
     \<and> catalog_phrases ww (str ''previous'') = spec_phrase_set previous_seeds
     \<and> (\<forall>c. c \<noteq> str ''next'' \<and> c \<noteq> str ''previous''
            \<longrightarrow> catalog_phrases ww c = set (seeded_phrases c))"
proof -
  from init_wake_words_shape obtain np pp where i: "init_wake_words =
       Inr ((str ''next'',
             \<lparr>phrases = np, weight = 10, description = str ''Slide maju''\<rparr>)
          # (str ''previous'',
             \<lparr>phrases = pp, weight = 10, description = str ''Slide mundur''\<rparr>)
          # literal_commands)"
    and n: "set np = spec_phrase_set next_seeds"
    and p: "set pp = spec_phrase_set previous_seeds" by blast
  let ?ww = "(str ''next'',
             \<lparr>phrases = np, weight = 10, description = str ''Slide maju''\<rparr>)
          # (str ''previous'',
             \<lparr>phrases = pp, weight = 10, description = str ''Slide mundur''\<rparr>)
          # literal_commands"
  have 1: "catalog_phrases ?ww (str ''next'') = spec_phrase_set next_seeds"
    by (simp add: catalog_phrases_def n)
  have 2: "catalog_phrases ?ww (str ''previous'') = spec_phrase_set previous_seeds"
    by (simp add: catalog_phrases_def p next_previous_distinct)
  have 3: "catalog_phrases ?ww c = set (seeded_phrases c)"
    if "c \<noteq> str ''next'' \<and> c \<noteq> str ''previous''" for c
    using that by (simp add: catalog_phrases_def seeded_phrases_def split: option.splits)
  from i 1 2 3 show ?thesis by blast
qed

theorem init_wake_words_phrases_witness:
  "\<exists>ww. init_wake_words = Inr ww
     \<and> str ''nex slide'' \<in> catalog_phrases ww (str ''next'')
     \<and> catalog_phrases ww (str ''help'') =
         set [str ''help menu'', str ''menu help'', str ''bantuan menu'',
              str ''menu bantuan'', str ''helm menu'', str ''hal menu'', str ''helmmu'',
              str ''menu bantu'', str ''menu bantuanmu'', str ''menu bantuin'',
              str ''held menu'', str ''hell menu'', str ''help me menu'']"
proof -
  from init_wake_words_phrases obtain ww where i: "init_wake_words = Inr ww"
    and n: "catalog_phrases ww (str ''next'') = spec_phrase_set next_seeds"
    and l: "\<forall>c. c \<noteq> str ''next'' \<and> c \<noteq> str ''previous''
            \<longrightarrow> catalog_phrases ww c = set (seeded_phrases c)" by blast
  have "str ''nex slide'' \<in> spec_phrase_set next_seeds"
    unfolding spec_phrase_set_def next_seeds_def using nex_slide_generated
    by (simp add: str_def)
  with n have 1: "str ''nex slide'' \<in> catalog_phrases ww (str ''next'')" by simp
  from l help_distinct
  have "catalog_phrases ww (str ''help'') = set (seeded_phrases (str ''help''))" by blast
  with i 1 show ?thesis unfolding help_seeded by blast
qed

text \<open>
  The command \<open>help\<close> is seeded with "help menu", whose generated variants include
  "hep menu" (8 characters); the phrase set of the claim holds it, the phrase set that
  \<open>detect\<close> scans for \<open>help\<close> does not.
\<close>

theorem literal_phrases_counterexample:
  "\<exists>ww. init_wake_words = Inr ww
     \<and> str ''help menu'' \<in> set (seeded_phrases (str ''help''))
     \<and> str ''hep menu'' \<in> spec_phrase_set (seeded_phrases (str ''help''))
     \<and> str ''hep menu'' \<notin> catalog_phrases ww (str ''help'')"
proof -
  have 1: "str ''hep menu'' \<in> spec_phrase_set (seeded_phrases (str ''help''))"
    unfolding help_seeded spec_phrase_set_def using hep_menu_generated
    by (simp add: str_def)
  from init_wake_words_shape obtain np pp where i: "init_wake_words =
       Inr ((str ''next'',
             \<lparr>phrases = np, weight = 10, description = str ''Slide maju''\<rparr>)
          # (str ''previous'',
             \<lparr>phrases = pp, weight = 10, description = str ''Slide mundur''\<rparr>)
          # literal_commands)" by blast
  have c: "catalog_phrases
      ((str ''next'', \<lparr>phrases = np, weight = 10, description = str ''Slide maju''\<rparr>)
       # (str ''previous'', \<lparr>phrases = pp, weight = 10, description = str ''Slide mundur''\<rparr>)
       # literal_commands) (str ''help'') = set (seeded_phrases (str ''help''))"
    unfolding help_seeded by (simp add: catalog_phrases_def help_distinct help_literal)
  have 2: "str ''help menu'' \<in> set (seeded_phrases (str ''help''))"
    and 3: "str ''hep menu'' \<notin> set (seeded_phrases (str ''help''))"
    unfolding help_seeded by (simp_all add: str_def)
  from 1 2 3 show ?thesis by (simp add: i c)
qed

end
